theory Spec2Isabelle
  imports Main "HOL-Library.AList"
begin

chapter \<open>The model\<close>

section \<open>Pipe sinks (lib/tiers/pipes.js, PipeSinkChannel)\<close>

text \<open>
  A source channel is an object; it is identified by its reference, a natural number.
  The sink keeps the array \<open>_sources\<close> and, for every \<open>sendEvent\<close>, one timer
  \<open>setTimeout(..., 0)\<close> whose callback closes over the event. Timers with the same
  delay fire in the order in which they were set, so the pending callbacks are a queue
  of events, oldest first. The callback reads \<open>this._sources\<close> when it runs, not when
  \<open>sendEvent\<close> was called. Each call \<open>source.emitEvent(event)\<close> is recorded as the
  pair of the source and the event; what the source does with it is outside the sink.
\<close>

record 'e pipe_sink =
  sources :: "nat list"
  timers :: "'e list"

definition new_sink :: "'e pipe_sink" where
  "new_sink = \<lparr>sources = [], timers = []\<rparr>"

definition addSource :: "nat \<Rightarrow> 'e pipe_sink \<Rightarrow> 'e pipe_sink" where
  "addSource src s = s\<lparr>sources := sources s @ [src]\<rparr>"

definition removeSource :: "nat \<Rightarrow> 'e pipe_sink \<Rightarrow> 'e pipe_sink" where
  "removeSource src s = s\<lparr>sources := filter (\<lambda>x. x \<noteq> src) (sources s)\<rparr>"

definition hasSources :: "'e pipe_sink \<Rightarrow> bool" where
  "hasSources s = (length (sources s) > 0)"

definition sendEvent :: "'e \<Rightarrow> 'e pipe_sink \<Rightarrow> 'e pipe_sink" where
  "sendEvent e s = s\<lparr>timers := timers s @ [e]\<rparr>"

text \<open>The body of the timer callback: \<open>this._sources.forEach(source.emitEvent(event))\<close>.\<close>

definition fanOut :: "nat list \<Rightarrow> 'e \<Rightarrow> (nat \<times> 'e) list" where
  "fanOut srcs e = map (\<lambda>src. (src, e)) srcs"

text \<open>The event loop runs the oldest pending timer of the sink (none: nothing happens).\<close>

definition tick :: "'e pipe_sink \<Rightarrow> 'e pipe_sink \<times> (nat \<times> 'e) list" where
  "tick s = (case timers s of
               [] \<Rightarrow> (s, [])
             | e # es \<Rightarrow> (s\<lparr>timers := es\<rparr>, fanOut (sources s) e))"

datatype 'e sink_op = AddSource nat | RemoveSource nat | SendEvent 'e | Tick

fun sink_step :: "'e sink_op \<Rightarrow> 'e pipe_sink \<Rightarrow> 'e pipe_sink \<times> (nat \<times> 'e) list" where
  "sink_step (AddSource src) s = (addSource src s, [])"
| "sink_step (RemoveSource src) s = (removeSource src s, [])"
| "sink_step (SendEvent e) s = (sendEvent e s, [])"
| "sink_step Tick s = tick s"

text \<open>A sequence of calls and timer firings, with the deliveries it makes, in order.\<close>

fun sink_run :: "'e sink_op list \<Rightarrow> 'e pipe_sink \<Rightarrow> 'e pipe_sink \<times> (nat \<times> 'e) list" where
  "sink_run [] s = (s, [])"
| "sink_run (x # xs) s =
     (case sink_step x s of (s', d) \<Rightarrow>
        (case sink_run xs s' of (s'', d') \<Rightarrow> (s'', d @ d')))"

section \<open>Channel state binder (ChannelStateBinder in the channel factory's file)\<close>

text \<open>A thrown exception or a rejected promise carries a JavaScript error.\<close>

datatype error = Error string | TypeError string

type_synonym 'v cached = "string \<rightharpoonup> 'v"

text \<open>
  Modelled from the spec: the keyed store \<open>ChannelStateDatabase\<close> (\<open>../db/channel\<close>) is
  not among the sources. The spec gives its interface, \<open>getOne(id) -> value|null\<close> and
  \<open>insertOne(id, value) -> void\<close>, and says that an I/O failure is a rejected flush.
  The store is a map from ids to values; \<open>writes\<close> lists every \<open>insertOne\<close> call, in order;
  \<open>broken\<close> says that the storage fails. The binder's id is \<open>null\<close> until \<open>init\<close>, hence
  the optional key.
\<close>

record 'v channel_db =
  store :: "string option \<rightharpoonup> 'v cached"
  writes :: "(string option \<times> 'v cached) list"
  broken :: bool

definition getOne :: "string option \<Rightarrow> 'v channel_db \<Rightarrow> error + 'v cached option" where
  "getOne uid db = (if broken db then Inl (Error ''I/O error'') else Inr (store db uid))"

definition insertOne ::
  "string option \<Rightarrow> 'v cached \<Rightarrow> 'v channel_db \<Rightarrow> error option \<times> 'v channel_db" where
  "insertOne uid v db =
     (if broken db then (Some (Error ''I/O error''), db\<lparr>writes := writes db @ [(uid, v)]\<rparr>)
      else (None, db\<lparr>store := (store db)(uid \<mapsto> v), writes := writes db @ [(uid, v)]\<rparr>))"

text \<open>
  The binder. \<open>updateTimeout\<close> is the pending \<open>setTimeout\<close> handle, modelled by the time
  (in ms) at which the timer is due; \<open>None\<close> is \<open>null\<close>. The code clears the old timer
  whenever it sets a new one and resets the field whenever the timer fires or is
  cleared, so the field holds exactly the live timer.

  Modelled from the spec: the base class \<open>RefCounted\<close> (\<open>../util/ref_counted\<close>) is not among
  the sources; by the spec, open and close are reference-counted, the underlying open
  happens once and the underlying close only when the last holder releases.
  \<open>useCount\<close> is that count.
\<close>

record 'v state_binder =
  cached :: "'v cached"
  binder_uniqueId :: "string option"
  updateTimeout :: "int option"
  useCount :: int

definition new_binder :: "'v state_binder" where
  "new_binder = \<lparr>cached = Map.empty, binder_uniqueId = None, updateTimeout = None, useCount = 0\<rparr>"

definition init :: "string \<Rightarrow> 'v state_binder \<Rightarrow> 'v state_binder" where
  "init uid b = b\<lparr>binder_uniqueId := Some uid\<rparr>"

definition get :: "string \<Rightarrow> 'v state_binder \<Rightarrow> 'v option" where
  "get name b = cached b name"


definition flushToDisk ::
  "'v state_binder \<times> 'v channel_db \<Rightarrow> error option \<times> 'v state_binder \<times> 'v channel_db" where
  "flushToDisk w =
     (case w of (b, db) \<Rightarrow>
        (case insertOne (binder_uniqueId b) (cached b) db of
           (r, db') \<Rightarrow> (r, b\<lparr>updateTimeout := None\<rparr>, db')))"

definition doOpen :: "'v state_binder \<times> 'v channel_db \<Rightarrow> error option \<times> 'v state_binder" where
  "doOpen w =
     (case w of (b, db) \<Rightarrow>
        (case getOne (binder_uniqueId b) db of
           Inl e \<Rightarrow> (Some e, b)
         | Inr (Some value) \<Rightarrow> (None, b\<lparr>cached := value\<rparr>)
         | Inr None \<Rightarrow> (None, b\<lparr>cached := Map.empty\<rparr>)))"

definition doClose ::
  "'v state_binder \<times> 'v channel_db \<Rightarrow> error option \<times> 'v state_binder \<times> 'v channel_db" where
  "doClose w = (case w of (b, db) \<Rightarrow> flushToDisk (b\<lparr>updateTimeout := None\<rparr>, db))"

text \<open>\<open>RefCounted.open\<close> and \<open>RefCounted.close\<close>, from the spec (see above).\<close>

definition open_binder :: "'v state_binder \<times> 'v channel_db \<Rightarrow> error option \<times> 'v state_binder" where
  "open_binder w =
     (case w of (b, db) \<Rightarrow>
        (let b' = b\<lparr>useCount := useCount b + 1\<rparr>
         in if useCount b' = 1 then doOpen (b', db) else (None, b')))"

definition close_binder ::
  "'v state_binder \<times> 'v channel_db \<Rightarrow> error option \<times> 'v state_binder \<times> 'v channel_db" where
  "close_binder w =
     (case w of (b, db) \<Rightarrow>
        (let b' = b\<lparr>useCount := useCount b - 1\<rparr>
         in if useCount b' = 0 then doClose (b', db) else (None, b', db)))"




section \<open>Channel factory (ChannelFactory)\<close>

text \<open>
  Modelled from the spec: the tiers. \<open>Tier\<close> is declared outside the sources; the spec
  names the cooperating tiers (phone, local server, cloud) and says that a device's
  \<open>ownerTier\<close> may be \<open>GLOBAL\<close>.
\<close>

datatype tier = GLOBAL | PHONE | SERVER | CLOUD

text \<open>
  The value that \<open>getTriggerClass\<close>, \<open>getQueryClass\<close> or \<open>getActionClass\<close> of a device
  resolves to (the variable \<open>factory\<close> of \<open>getChannel\<close>). \<open>requiredCapabilities\<close> may be
  undefined. \<open>construct\<close> stands for \<open>new factory(...)\<close> when the value is a function and
  for \<open>factory.createChannel(...)\<close> otherwise: the code of a channel is outside the
  factory, it may throw, and of the channel it returns the factory reads only
  \<open>filterString\<close> (which may be undefined). The parameters \<open>params\<close> are opaque, of type \<open>'p\<close>.
\<close>

record 'p channel_class =
  requiredCapabilities :: "string list option"
  construct :: "'p \<Rightarrow> error + string option"

record 'p device =
  device_uniqueId :: string
  ownerTier :: tier
  getTriggerClass :: "string \<Rightarrow> error + 'p channel_class"
  getQueryClass :: "string \<Rightarrow> error + 'p channel_class"
  getActionClass :: "string \<Rightarrow> error + 'p channel_class"

text \<open>
  What the factory reads of the engine: its own tier and the platform's capability
  probe. \<open>makeString\<close> is \<open>Protocol.params.makeString\<close>, declared outside the sources and
  taken as a parameter.
\<close>

record 'p engine =
  ownTier :: tier
  hasCapability :: "string \<Rightarrow> bool"
  makeString :: "'p \<Rightarrow> string"

text \<open>
  A channel object. \<open>ref\<close> is its identity: the number of constructor runs before the
  one that made it. \<open>state\<close> is the reference of its state binder, when it has one.
\<close>

record channel =
  ref :: nat
  channel_uniqueId :: string
  filterString :: "string option"
  state :: "nat option"

text \<open>
  One call \<open>proxyManager.getProxyChannel(targetChannelId, targetTier, device, local, kind,
  mode, params)\<close>; the device and the local channel are given by their identities.
\<close>

record 'p proxy_call =
  targetChannelId :: string
  targetTier :: tier
  proxy_device :: string
  proxy_local :: nat
  proxy_kind :: string
  proxy_mode :: string
  proxy_params :: "'p"

text \<open>
  What \<open>getOpenedChannel\<close> hands out: a local channel, or the proxy channel that the
  \<open>n\<close>-th call of the Proxy Manager returned.
\<close>

datatype opened_channel = LocalChannel channel | ProxyChannel nat

text \<open>
  The factory's state. \<open>cachedChannels\<close> is the cache; \<open>constructed\<close> counts the runs of
  channel constructors; \<open>binders\<close> holds every state binder allocated, by reference;
  \<open>proxyManager\<close> says whether the setter has been called; \<open>proxyCalls\<close> lists the calls made
  to the Proxy Manager, \<open>opens\<close> the calls of \<open>open()\<close> on channels and \<open>console\<close> the lines
  logged.
\<close>

record ('p, 'v) channel_factory =
  cachedChannels :: "string \<rightharpoonup> channel"
  constructed :: nat
  binders :: "'v state_binder list"
  factory_db :: "'v channel_db"
  proxyManager :: bool
  proxyCalls :: "'p proxy_call list"
  opens :: "opened_channel list"
  console :: "string list"

definition new_factory :: "('p, 'v) channel_factory" where
  "new_factory =
     \<lparr>cachedChannels = Map.empty, constructed = 0, binders = [],
      factory_db = \<lparr>store = Map.empty, writes = [], broken = False\<rparr>,
      proxyManager = False, proxyCalls = [], opens = [], console = []\<rparr>"

text \<open>\<open>key.startsWith(prefix)\<close>.\<close>

definition startsWith :: "string \<Rightarrow> string \<Rightarrow> bool" where
  "startsWith key pre = (take (length pre) key = pre)"

definition onDeviceRemoved :: "'p device \<Rightarrow> ('p, 'v) channel_factory \<Rightarrow> ('p, 'v) channel_factory" where
  "onDeviceRemoved dev f =
     f\<lparr>cachedChannels :=
         (\<lambda>key. if startsWith key (device_uniqueId dev @ ''-'') then None
                else cachedChannels f key)\<rparr>"

definition checkFactoryCaps :: "'p engine \<Rightarrow> string list \<Rightarrow> bool" where
  "checkFactoryCaps eng caps =
     list_all (\<lambda>c. if c = ''channel-state'' then True else hasCapability eng c) caps"

text \<open>The first step of \<open>getChannel\<close>, inside \<open>Q.try\<close>: the class lookup by mode.\<close>

definition getClass :: "'p device \<Rightarrow> string \<Rightarrow> string \<Rightarrow> error + 'p channel_class" where
  "getClass dev kind mode =
     (if mode = ''r'' then getTriggerClass dev kind
      else if mode = ''q'' then getQueryClass dev kind
      else getActionClass dev kind)"

text \<open>The id given to a channel once it is constructed.\<close>

definition makeUniqueId :: "'p device \<Rightarrow> string \<Rightarrow> string option \<Rightarrow> string" where
  "makeUniqueId dev kind fs =
     (case fs of
        Some filter_string \<Rightarrow> device_uniqueId dev @ ''-'' @ kind @ ''-'' @ filter_string
      | None \<Rightarrow> device_uniqueId dev @ ''-'' @ kind)"

text \<open>
  \<open>getChannel\<close>. The result is the promise's outcome (\<open>Inl\<close>: rejected) and the factory
  afterwards. The callbacks of the promise chain run one after the other with nothing
  of the factory in between; the lookup in the cache and the store into it are in one
  callback. A binder allocated before the constructor throws is garbage and is not
  recorded. The promise of \<open>state.close()\<close> is dropped by the code, so its outcome \<open>r\<close> is
  not read.
\<close>

definition getChannel ::
  "'p engine \<Rightarrow> 'p device \<Rightarrow> string \<Rightarrow> string \<Rightarrow> 'p \<Rightarrow> bool \<Rightarrow> ('p, 'v) channel_factory
   \<Rightarrow> (error + channel) \<times> ('p, 'v) channel_factory" where
  "getChannel eng dev kind mode params forOpen f =
     (case getClass dev kind mode of
        Inl e \<Rightarrow> (Inl e, f)
      | Inr factory \<Rightarrow>
          (let caps = (case requiredCapabilities factory of None \<Rightarrow> [] | Some cs \<Rightarrow> cs) in
           if forOpen \<and> \<not> checkFactoryCaps eng caps
           then (Inl (Error ''Channel is not supported''), f)
           else
             (let hasState = (''channel-state'' \<in> set caps);
                  f1 = f\<lparr>constructed := constructed f + 1\<rparr>
              in case construct factory params of
                   Inl e \<Rightarrow> (Inl e, f1)
                 | Inr fs \<Rightarrow>
                     (let uid = makeUniqueId dev kind fs;
                          ch = \<lparr>ref = constructed f, channel_uniqueId = uid, filterString = fs,
                                state = (if hasState then Some (length (binders f)) else None)\<rparr>;
                          f2 = f1\<lparr>console := console f1 @ [''Obtained channel '' @ uid]\<rparr>
                      in if hasState then
                           (case open_binder (init uid new_binder, factory_db f2) of
                              (Some e, b) \<Rightarrow> (Inl e, f2\<lparr>binders := binders f2 @ [b]\<rparr>)
                            | (None, b) \<Rightarrow>
                                (case cachedChannels f2 uid of
                                   Some cached_channel \<Rightarrow>
                                     (Inr cached_channel, f2\<lparr>binders := binders f2 @ [b]\<rparr>)
                                 | None \<Rightarrow>
                                     (case close_binder (b, factory_db f2) of
                                        (r, b', db') \<Rightarrow>
                                          (Inr ch,
                                           f2\<lparr>binders := binders f2 @ [b'], factory_db := db',
                                              cachedChannels := (cachedChannels f2)(uid \<mapsto> ch)\<rparr>))))
                         else
                           (case cachedChannels f2 uid of
                              Some cached_channel \<Rightarrow> (Inr cached_channel, f2)
                            | None \<Rightarrow>
                                (Inr ch, f2\<lparr>cachedChannels := (cachedChannels f2)(uid \<mapsto> ch)\<rparr>))))))"

text \<open>\<open>_getOpenedChannel(promise)\<close>: \<open>tap\<close> calls \<open>open()\<close> on the channel the promise gives.\<close>

definition openChannel ::
  "(error + opened_channel) \<times> ('p, 'v) channel_factory
   \<Rightarrow> (error + opened_channel) \<times> ('p, 'v) channel_factory" where
  "openChannel p =
     (case p of
        (Inl e, f) \<Rightarrow> (Inl e, f)
      | (Inr c, f) \<Rightarrow> (Inr c, f\<lparr>opens := opens f @ [c]\<rparr>))"

text \<open>
  \<open>_getProxyChannel\<close>. The target id is computed first; the local instance is obtained
  with \<open>forOpen = false\<close>; then the Proxy Manager is called (a \<open>TypeError\<close> when none was
  set: the field is \<open>null\<close>).
\<close>

definition getProxyChannel ::
  "'p engine \<Rightarrow> tier \<Rightarrow> 'p device \<Rightarrow> string \<Rightarrow> string \<Rightarrow> 'p \<Rightarrow> ('p, 'v) channel_factory
   \<Rightarrow> (error + opened_channel) \<times> ('p, 'v) channel_factory" where
  "getProxyChannel eng target dev kind mode params f =
     (let tid = (if mode = ''r'' then device_uniqueId dev @ ''-'' @ kind @ ''-'' @ makeString eng params
                 else device_uniqueId dev @ ''-'' @ kind)
      in case getChannel eng dev kind mode params False f of
           (Inl e, f') \<Rightarrow> (Inl e, f')
         | (Inr local, f') \<Rightarrow>
             if \<not> proxyManager f' then (Inl (TypeError ''proxyManager is null''), f')
             else (Inr (ProxyChannel (length (proxyCalls f'))),
                   f'\<lparr>proxyCalls := proxyCalls f' @
                        [\<lparr>targetChannelId = tid, targetTier = target,
                          proxy_device = device_uniqueId dev, proxy_local = ref local,
                          proxy_kind = kind, proxy_mode = mode, proxy_params = params\<rparr>]\<rparr>))"

definition localChannel ::
  "(error + channel) \<times> ('p, 'v) channel_factory
   \<Rightarrow> (error + opened_channel) \<times> ('p, 'v) channel_factory" where
  "localChannel p = (case p of (Inl e, f) \<Rightarrow> (Inl e, f) | (Inr c, f) \<Rightarrow> (Inr (LocalChannel c), f))"

definition getOpenedChannel ::
  "'p engine \<Rightarrow> 'p device \<Rightarrow> string \<Rightarrow> string \<Rightarrow> 'p \<Rightarrow> ('p, 'v) channel_factory
   \<Rightarrow> (error + opened_channel) \<times> ('p, 'v) channel_factory" where
  "getOpenedChannel eng dev kind mode params f =
     (if ownerTier dev = ownTier eng \<or> ownerTier dev = GLOBAL
      then openChannel (localChannel (getChannel eng dev kind mode params True f))
      else openChannel (getProxyChannel eng (ownerTier dev) dev kind mode params f))"

text \<open>A sequence of \<open>getChannel\<close> calls, one after the other, with the outcome of each.\<close>

record 'p call =
  call_device :: "'p device"
  call_kind :: string
  call_mode :: string
  call_params :: "'p"
  call_forOpen :: bool

fun getChannels ::
  "'p engine \<Rightarrow> 'p call list \<Rightarrow> ('p, 'v) channel_factory
   \<Rightarrow> (error + channel) list \<times> ('p, 'v) channel_factory" where
  "getChannels eng [] f = ([], f)"
| "getChannels eng (c # cs) f =
     (case getChannel eng (call_device c) (call_kind c) (call_mode c) (call_params c)
             (call_forOpen c) f of
        (r, f') \<Rightarrow> (case getChannels eng cs f' of (rs, f'') \<Rightarrow> (r # rs, f'')))"

text \<open>
  The id that the parameters of a call normalizedId to: the id \<open>getChannel\<close> gives the
  channel it constructs for them (none when the class lookup or the constructor throws).
\<close>

definition normalizedId :: "'p call \<Rightarrow> string option" where
  "normalizedId c =
     (case getClass (call_device c) (call_kind c) (call_mode c) of
        Inl e \<Rightarrow> None
      | Inr factory \<Rightarrow>
          (case construct factory (call_params c) of
             Inl e \<Rightarrow> None
           | Inr fs \<Rightarrow> Some (makeUniqueId (call_device c) (call_kind c) fs)))"

text \<open>Whether a call gets as far as running the channel's constructor.\<close>

definition runsConstructor :: "'p engine \<Rightarrow> 'p call \<Rightarrow> bool" where
  "runsConstructor eng c =
     (case getClass (call_device c) (call_kind c) (call_mode c) of
        Inl e \<Rightarrow> False
      | Inr factory \<Rightarrow>
          \<not> (call_forOpen c \<and>
             \<not> checkFactoryCaps eng
                 (case requiredCapabilities factory of None \<Rightarrow> [] | Some cs \<Rightarrow> cs)))"

subsection \<open>Concrete objects for the evaluations\<close>

text \<open>
  A trigger class that declares the \<open>channel-state\<close> capability and gives its channels
  no \<open>filterString\<close>, one that declares nothing, a device \<open>lamp\<close> owned by the server
  tier with the trigger \<open>power\<close> (stateful) and the action \<open>toggle\<close> (stateless), and
  the engines of the server and of the phone, whose platforms have no capability.
\<close>

definition stateful_class :: "string channel_class" where
  "stateful_class =
     \<lparr>requiredCapabilities = Some [''channel-state''], construct = (\<lambda>p. Inr None)\<rparr>"

definition plain_class :: "string channel_class" where
  "plain_class = \<lparr>requiredCapabilities = None, construct = (\<lambda>p. Inr None)\<rparr>"

definition lamp :: "string device" where
  "lamp =
     \<lparr>device_uniqueId = ''lamp'', ownerTier = SERVER,
      getTriggerClass = (\<lambda>kind. if kind = ''power'' then Inr stateful_class
                                 else Inl (Error ''no such trigger'')),
      getQueryClass = (\<lambda>kind. Inl (Error ''no such query'')),
      getActionClass = (\<lambda>kind. if kind = ''toggle'' then Inr plain_class
                                else Inl (Error ''no such action''))\<rparr>"

definition server_engine :: "string engine" where
  "server_engine = \<lparr>ownTier = SERVER, hasCapability = (\<lambda>c. False), makeString = (\<lambda>p. p)\<rparr>"

definition phone_engine :: "string engine" where
  "phone_engine = \<lparr>ownTier = PHONE, hasCapability = (\<lambda>c. False), makeString = (\<lambda>p. p)\<rparr>"

definition power_call :: "string call" where
  "power_call =
     \<lparr>call_device = lamp, call_kind = ''power'', call_mode = ''r'', call_params = '''',
      call_forOpen = True\<rparr>"

definition toggle_call :: "string call" where
  "toggle_call =
     \<lparr>call_device = lamp, call_kind = ''toggle'', call_mode = ''w'', call_params = '''',
      call_forOpen = True\<rparr>"

section \<open>Channel opener (lib/apps/channel_opener.js, ChannelOpener)\<close>

text \<open>A promise, by the way it settles.\<close>

datatype 'a promise = Resolved 'a | Rejected error

definition message :: "error \<Rightarrow> string" where
  "message e = (case e of Error m \<Rightarrow> m | TypeError m \<Rightarrow> m)"

text \<open>
  What the opener uses of a device of its view: its id and the three calls that each
  return the promise of a channel.
\<close>

record 'p view_device =
  view_uniqueId :: string
  getTrigger :: "string \<Rightarrow> 'p \<Rightarrow> channel promise"
  getQuery :: "string \<Rightarrow> channel promise"
  getAction :: "string \<Rightarrow> channel promise"

text \<open>A line of \<open>console.error\<close>: a text, or the stack of an error.\<close>

datatype error_line = ErrorText string | ErrorStack error

text \<open>
  The opener: its mode, channel name and parameters, the channels of \<open>_set\<close>, and the
  lines it has logged.

  Modelled from the spec: \<open>ObjectSet.Simple\<close> is not among the sources. \<open>addOne\<close> of a
  promise adds the channel the promise resolves to, adds nothing when it resolves to
  \<open>null\<close> (by the spec: no channel for that device), and returns a promise that settles as
  the given one does. Promises settle in the order of the calls.
\<close>

record 'p channel_opener =
  opener_mode :: string
  channelName :: string
  opener_params :: "'p"
  opener_set :: "channel list"
  opener_errors :: "error_line list"

definition addOne ::
  "channel option promise \<Rightarrow> 'p channel_opener \<Rightarrow> unit promise \<times> 'p channel_opener" where
  "addOne p opn =
     (case p of
        Rejected e \<Rightarrow> (Rejected e, opn)
      | Resolved None \<Rightarrow> (Resolved (), opn)
      | Resolved (Some ch) \<Rightarrow> (Resolved (), opn\<lparr>opener_set := opener_set opn @ [ch]\<rparr>))"

text \<open>
  \<open>_openOneChannel\<close>: \<open>Inl\<close> is the \<open>TypeError\<close> thrown for an invalid mode; otherwise the
  promise of \<open>addOne\<close>. The handler given to \<open>promise.catch\<close> logs two lines and returns
  \<open>null\<close>.
\<close>

definition openOneChannel ::
  "'p view_device \<Rightarrow> 'p channel_opener \<Rightarrow> (error + unit promise) \<times> 'p channel_opener" where
  "openOneChannel device opn =
     (if opener_mode opn \<noteq> ''r'' \<and> opener_mode opn \<noteq> ''q'' \<and> opener_mode opn \<noteq> ''w''
      then (Inl (TypeError ''Invalid mode''), opn)
      else
        (let promise =
               (if opener_mode opn = ''r'' then getTrigger device (channelName opn) (opener_params opn)
                else if opener_mode opn = ''q'' then getQuery device (channelName opn)
                else getAction device (channelName opn))
         in case promise of
              Resolved ch \<Rightarrow>
                (case addOne (Resolved (Some ch)) opn of (p, opn') \<Rightarrow> (Inr p, opn'))
            | Rejected e \<Rightarrow>
                (case addOne (Resolved None)
                        (opn\<lparr>opener_errors := opener_errors opn @
                             [ErrorText (''Failed to get channel '' @ channelName opn @
                                         '' in device '' @ view_uniqueId device @ '': '' @ message e),
                              ErrorStack e]\<rparr>) of
                   (p, opn') \<Rightarrow> (Inr p, opn'))))"

text \<open>\<open>devices.map(...)\<close>: a throw ends the loop.\<close>

fun openEach ::
  "'p view_device list \<Rightarrow> 'p channel_opener \<Rightarrow> (error + unit promise list) \<times> 'p channel_opener" where
  "openEach [] opn = (Inr [], opn)"
| "openEach (device # devices) opn =
     (case openOneChannel device opn of
        (Inl e, opn') \<Rightarrow> (Inl e, opn')
      | (Inr p, opn') \<Rightarrow>
          (case openEach devices opn' of
             (Inl e, opn'') \<Rightarrow> (Inl e, opn'')
           | (Inr ps, opn'') \<Rightarrow> (Inr (p # ps), opn'')))"

text \<open>\<open>Q.all\<close>: rejected with the first rejection, else resolved with all the values.\<close>

fun all_promise :: "'a promise list \<Rightarrow> 'a list promise" where
  "all_promise [] = Resolved []"
| "all_promise (Rejected e # ps) = Rejected e"
| "all_promise (Resolved v # ps) =
     (case all_promise ps of Rejected e \<Rightarrow> Rejected e | Resolved vs \<Rightarrow> Resolved (v # vs))"

text \<open>
  \<open>_openChannels\<close> and \<open>start\<close>, on the devices that the view holds when it is started
  (\<open>Inl\<close>: \<open>start\<close> throws).
\<close>

definition openChannels ::
  "'p view_device list \<Rightarrow> 'p channel_opener \<Rightarrow> (error + unit list promise) \<times> 'p channel_opener" where
  "openChannels devices opn =
     (case openEach devices opn of
        (Inl e, opn') \<Rightarrow> (Inl e, opn')
      | (Inr ps, opn') \<Rightarrow> (Inr (all_promise ps), opn'))"

definition start ::
  "'p view_device list \<Rightarrow> 'p channel_opener \<Rightarrow> (error + unit list promise) \<times> 'p channel_opener" where
  "start devices opn = openChannels devices opn"

text \<open>The promise that \<open>_openOneChannel\<close> asks the device for, by the opener's mode.\<close>

definition requested :: "'p channel_opener \<Rightarrow> 'p view_device \<Rightarrow> channel promise" where
  "requested opn device =
     (if opener_mode opn = ''r'' then getTrigger device (channelName opn) (opener_params opn)
      else if opener_mode opn = ''q'' then getQuery device (channelName opn)
      else getAction device (channelName opn))"

text \<open>The channels of the devices whose promise resolves, and the lines for the others.\<close>

fun obtained :: "'p channel_opener \<Rightarrow> 'p view_device list \<Rightarrow> channel list" where
  "obtained opn [] = []"
| "obtained opn (device # devices) =
     (case requested opn device of
        Resolved ch \<Rightarrow> ch # obtained opn devices
      | Rejected e \<Rightarrow> obtained opn devices)"

fun failures :: "'p channel_opener \<Rightarrow> 'p view_device list \<Rightarrow> error_line list" where
  "failures opn [] = []"
| "failures opn (device # devices) =
     (case requested opn device of
        Resolved ch \<Rightarrow> failures opn devices
      | Rejected e \<Rightarrow>
          ErrorText (''Failed to get channel '' @ channelName opn @ '' in device '' @
                     view_uniqueId device @ '': '' @ message e)
          # ErrorStack e # failures opn devices)"

subsection \<open>The other copy of the opener (second file of src/unnamed/part_001)\<close>

text \<open>
  There \<open>_openOneChannel\<close> hands the device's promise to \<open>addOne\<close> as it is; only
  \<open>_onDeviceAdded\<close> catches and logs.
\<close>

definition openOneChannel_uncaught ::
  "'p view_device \<Rightarrow> 'p channel_opener \<Rightarrow> (error + unit promise) \<times> 'p channel_opener" where
  "openOneChannel_uncaught device opn =
     (if opener_mode opn \<noteq> ''r'' \<and> opener_mode opn \<noteq> ''q'' \<and> opener_mode opn \<noteq> ''w''
      then (Inl (TypeError ''Invalid mode''), opn)
      else
        (let promise =
               (if opener_mode opn = ''r'' then getTrigger device (channelName opn) (opener_params opn)
                else if opener_mode opn = ''q'' then getQuery device (channelName opn)
                else getAction device (channelName opn))
         in case addOne (case promise of Resolved ch \<Rightarrow> Resolved (Some ch)
                                        | Rejected e \<Rightarrow> Rejected e) opn of
              (p, opn') \<Rightarrow> (Inr p, opn')))"

fun openEach_uncaught ::
  "'p view_device list \<Rightarrow> 'p channel_opener \<Rightarrow> (error + unit promise list) \<times> 'p channel_opener" where
  "openEach_uncaught [] opn = (Inr [], opn)"
| "openEach_uncaught (device # devices) opn =
     (case openOneChannel_uncaught device opn of
        (Inl e, opn') \<Rightarrow> (Inl e, opn')
      | (Inr p, opn') \<Rightarrow>
          (case openEach_uncaught devices opn' of
             (Inl e, opn'') \<Rightarrow> (Inl e, opn'')
           | (Inr ps, opn'') \<Rightarrow> (Inr (p # ps), opn'')))"

definition start_uncaught ::
  "'p view_device list \<Rightarrow> 'p channel_opener \<Rightarrow> (error + unit list promise) \<times> 'p channel_opener" where
  "start_uncaught devices opn =
     (case openEach_uncaught devices opn of
        (Inl e, opn') \<Rightarrow> (Inl e, opn')
      | (Inr ps, opn') \<Rightarrow> (Inr (all_promise ps), opn'))"

text \<open>
  \<open>_onDeviceAdded\<close> of that copy, for a device that joins the view later: the promise
  of \<open>_openOneChannel\<close> gets the handler that logs the two lines and returns \<open>null\<close>.
  (\<open>Inl\<close>: the \<open>TypeError\<close> of an invalid mode leaves the event handler.)
\<close>

definition onDeviceAdded_uncaught ::
  "'p view_device \<Rightarrow> 'p channel_opener \<Rightarrow> (error + unit promise) \<times> 'p channel_opener" where
  "onDeviceAdded_uncaught device opn =
     (case openOneChannel_uncaught device opn of
        (Inl e, opn') \<Rightarrow> (Inl e, opn')
      | (Inr (Resolved u), opn') \<Rightarrow> (Inr (Resolved u), opn')
      | (Inr (Rejected e), opn') \<Rightarrow>
          (Inr (Resolved ()),
           opn'\<lparr>opener_errors := opener_errors opn' @
                  [ErrorText (''Failed to get channel '' @ channelName opn' @
                              '' in device '' @ view_uniqueId device @ '': '' @ message e),
                   ErrorStack e]\<rparr>))"

subsection \<open>Concrete devices for the evaluations\<close>

definition good_device :: "string \<Rightarrow> string view_device" where
  "good_device name =
     \<lparr>view_uniqueId = name,
      getTrigger = (\<lambda>kind p. Resolved \<lparr>ref = 0, channel_uniqueId = name @ ''-'' @ kind,
                                        filterString = None, state = None\<rparr>),
      getQuery = (\<lambda>kind. Rejected (Error ''no such query'')),
      getAction = (\<lambda>kind. Rejected (Error ''no such action''))\<rparr>"

definition bad_device :: "string \<Rightarrow> string view_device" where
  "bad_device name =
     \<lparr>view_uniqueId = name,
      getTrigger = (\<lambda>kind p. Rejected (Error ''Channel is not supported'')),
      getQuery = (\<lambda>kind. Rejected (Error ''no such query'')),
      getAction = (\<lambda>kind. Rejected (Error ''no such action''))\<rparr>"

definition trigger_opener :: "string channel_opener" where
  "trigger_opener =
     \<lparr>opener_mode = ''r'', channelName = ''power'', opener_params = '''',
      opener_set = [], opener_errors = []\<rparr>"

section \<open>Tier connections (lib/tiers/tier_connections.js)\<close>

subsection \<open>Frames and messages\<close>

text \<open>
  A parsed frame is a JSON value. An object is the list of its properties, each key
  once. Numbers are kept as integers: the code compares and converts none.
\<close>

datatype json =
    JNull
  | JBool bool
  | JNumber int
  | JString string
  | JArray "json list"
  | JObject "(string \<times> json) list"

text \<open>What a socket's \<open>message\<close> event carries: text that \<open>JSON.parse\<close> rejects, or a value.\<close>

datatype wire = Unparsable | Parsed json

text \<open>
  \<open>msg.name\<close> for a parsed value: a \<open>TypeError\<close> on \<open>null\<close>, \<open>undefined\<close> (\<open>None\<close>) for a
  property that is absent and for any property of a boolean, number, string or array
  (the code reads \<open>control\<close>, \<open>identity\<close> and \<open>token\<close> only).
\<close>

definition property :: "json \<Rightarrow> string \<Rightarrow> error + json option" where
  "property msg name =
     (case msg of
        JNull \<Rightarrow> Inl (TypeError ''Cannot read property of null'')
      | JObject kvs \<Rightarrow> Inr (map_of kvs name)
      | _ \<Rightarrow> Inr None)"

text \<open>
  A message handed to \<open>send\<close> is an object, the list of its properties.
  \<open>withControl\<close> is \<open>if (msg.control === undefined) msg.control = 'data'\<close>. The object is
  changed in place and may also sit in a buffer; since every path that sends a message
  applies the same default first, what goes on the wire does not depend on the sharing,
  and the model keeps messages as values.
\<close>

type_synonym msg = "(string \<times> json) list"

definition withControl :: "msg \<Rightarrow> msg" where
  "withControl m =
     (case map_of m ''control'' of
        None \<Rightarrow> AList.update ''control'' (JString ''data'') m
      | Some c \<Rightarrow> m)"

text \<open>\<open>delete msg.control\<close> on a parsed value.\<close>

definition deleteControl :: "json \<Rightarrow> json" where
  "deleteControl msg =
     (case msg of JObject kvs \<Rightarrow> JObject (AList.delete ''control'' kvs) | _ \<Rightarrow> msg)"

subsection \<open>Client side (ClientConnection)\<close>

text \<open>
  What the client does to the outside, in order: lines logged, sockets constructed,
  data given to \<open>socket.send\<close> (a JSON text, or the message object itself, as the flush
  in \<open>_onConnected\<close> passes it), \<open>socket.close()\<close>, \<open>socket.pong()\<close>, events emitted, and an
  exception that leaves a handler.
\<close>

datatype client_effect =
    Log string
  | LogAttempt int
  | NewWebSocket nat
  | SendText nat json
  | SendObject nat msg
  | CloseSocket nat
  | Pong nat
  | EmitFailed "msg list"
  | EmitMessage json
  | Throws error

text \<open>
  The fields of the object; and, for the model, \<open>created\<close>, the number of sockets
  constructed so far (a socket is named by its number), \<open>pending\<close>, the sockets whose
  connection promise of \<open>open()\<close> is not yet settled, \<open>connected\<close>, the sockets on which
  \<open>_onConnected\<close> has installed its handlers, and \<open>effects\<close>. Times are in ms.
\<close>

record client =
  client_identity :: string
  authToken :: "string option"
  client_closeOk :: bool
  client_outgoingBuffer :: "msg list"
  ratelimitTimer :: "int option"
  retryAttempts :: int
  client_socket :: "nat option"
  created :: nat
  pending :: "nat list"
  connected :: "nat list"
  effects :: "client_effect list"


definition emit :: "client_effect list \<Rightarrow> client \<Rightarrow> client" where
  "emit es c = c\<lparr>effects := effects c @ es\<rparr>"

text \<open>
  \<open>open()\<close>, up to the point where it waits for the socket: the budget goes down by
  one, the attempt is logged and a socket is constructed.
\<close>

definition client_open :: "client \<Rightarrow> client" where
  "client_open c =
     (let c1 = c\<lparr>retryAttempts := retryAttempts c - 1\<rparr>
      in emit [LogAttempt (3 - retryAttempts c1), NewWebSocket (created c1)]
           (c1\<lparr>created := created c1 + 1, pending := pending c1 @ [created c1]\<rparr>))"





definition client_send :: "msg \<Rightarrow> client \<Rightarrow> client" where
  "client_send m c =
     (case client_socket c of
        Some s \<Rightarrow> emit [SendText s (JObject (withControl m))] c
      | None \<Rightarrow> c\<lparr>client_outgoingBuffer := client_outgoingBuffer c @ [m]\<rparr>)"

definition client_sendMany :: "msg list \<Rightarrow> client \<Rightarrow> client" where
  "client_sendMany buffer c = fold client_send buffer c"







text \<open>The number of sockets that the effects construct.\<close>

definition attempts :: "client_effect list \<Rightarrow> nat" where
  "attempts es = length (filter (\<lambda>e. case e of NewWebSocket s \<Rightarrow> True | _ \<Rightarrow> False) es)"

subsection \<open>Server side (ServerConnection)\<close>

text \<open>
  A connection record. \<open>socket\<close> is \<open>null\<close> (\<open>None\<close>) or a socket; \<open>closeCallback\<close> says
  whether a callback is stored; \<open>pingTimeout\<close> is absent in the records that the
  constructor makes for the expected identities, \<open>-1\<close> in a new record of
  \<open>_handleConnection\<close>, and then the handle of an interval timer; \<open>identity\<close> is undefined
  until the record is authenticated.
\<close>

datatype interval = Absent | MinusOne | Interval nat

record connection =
  socket :: "nat option"
  dataOk :: bool
  closeOk :: bool
  closeCallback :: bool
  pingTimeout :: interval
  outgoingBuffer :: "msg list"
  identity :: "string option"

text \<open>
  What the server does to the outside while it handles one call or event: lines logged,
  JSON texts sent on a socket, sockets terminated, interval timers set (with the record
  they ping) and cleared, pings and pongs, events emitted, a close callback called, and
  an exception that leaves the handler.
\<close>

datatype server_effect =
    ServerLog string
  | Send nat json
  | Terminate nat
  | SetInterval nat nat
  | ClearInterval nat
  | PingSocket nat
  | PongSocket nat
  | EmitConnected string
  | ServerMessage json "string option"
  | CloseCallback nat
  | ServerThrows error

text \<open>
  The server. Connection records are objects: a record is made once, by the constructor
  or by \<open>_handleConnection\<close>, and then shared between the closure of the socket's
  handlers and the table \<open>_connections\<close>. \<open>records\<close> is the store of these objects, by
  reference, and \<open>allocated\<close> the number of references in use. A socket is named by the
  reference of the record that \<open>_handleConnection\<close> made for it; \<open>sockets\<close> lists the
  sockets accepted. \<open>connections\<close> holds the own properties of the table, from identity
  to reference, in the order of insertion (the order of \<open>for ... in\<close>); the table is a
  plain object, so reading a name that it does not hold finds what \<open>Object.prototype\<close>
  has under that name (\<open>connectionOf\<close> below). \<open>intervals\<close> holds the interval timers that
  are set and not cleared, each with the record it pings. \<open>out\<close> collects the effects of
  the call or event being handled.

  Modelled from the spec: the platform is not among the sources. \<open>configuredToken\<close> is
  what \<open>getAuthToken()\<close> returns (\<open>None\<close>: undefined); \<open>setAuthToken\<close> stores a token if
  none exists yet, and says whether it did. \<open>toText\<close> is JavaScript's \<open>String(...)\<close>, taken
  as a parameter.
\<close>

record server =
  configuredToken :: "string option"
  toText :: "json \<Rightarrow> string"
  records :: "nat \<Rightarrow> connection"
  allocated :: nat
  sockets :: "nat list"
  connections :: "(string \<times> nat) list"
  intervals :: "(nat \<times> nat) list"
  intervalsSet :: nat
  out :: "server_effect list"

definition expectedRecord :: connection where
  "expectedRecord =
     \<lparr>socket = None, dataOk = False, closeOk = False, closeCallback = False,
      pingTimeout = Absent, outgoingBuffer = [], identity = None\<rparr>"

definition newRecord :: "nat \<Rightarrow> connection" where
  "newRecord s =
     \<lparr>socket = Some s, dataOk = False, closeOk = False, closeCallback = False,
      pingTimeout = MinusOne, outgoingBuffer = [], identity = None\<rparr>"

definition say :: "server_effect list \<Rightarrow> server \<Rightarrow> server" where
  "say es st = st\<lparr>out := out st @ es\<rparr>"

text \<open>An assignment to fields of the record \<open>r\<close>.\<close>

definition modify :: "nat \<Rightarrow> (connection \<Rightarrow> connection) \<Rightarrow> server \<Rightarrow> server" where
  "modify r f st = st\<lparr>records := (records st)(r := f (records st r))\<rparr>"

text \<open>The constructor: one record for each expected identity.\<close>

fun expect :: "string list \<Rightarrow> server \<Rightarrow> server" where
  "expect [] st = st"
| "expect (from # rest) st =
     expect rest
       (st\<lparr>records := (records st)(allocated st := expectedRecord),
           connections := AList.update from (allocated st) (connections st),
           allocated := allocated st + 1\<rparr>)"

definition new_server :: "string option \<Rightarrow> (json \<Rightarrow> string) \<Rightarrow> string list \<Rightarrow> server" where
  "new_server token text expected =
     expect expected
       \<lparr>configuredToken = token, toText = text, records = (\<lambda>r. expectedRecord), allocated = 0,
        sockets = [], connections = [], intervals = [], intervalsSet = 0, out = []\<rparr>"

definition setAuthToken :: "string \<Rightarrow> server \<Rightarrow> bool \<times> server" where
  "setAuthToken token st =
     (case configuredToken st of
        None \<Rightarrow> (True, st\<lparr>configuredToken := Some token\<rparr>)
      | Some old \<Rightarrow> (False, st))"

text \<open>
  The names of the properties that a plain object inherits from \<open>Object.prototype\<close>:
  functions, and under \<open>__proto__\<close> the prototype itself. None of these values is
  \<open>undefined\<close> or false, and none has a property \<open>socket\<close>, \<open>dataOk\<close>, \<open>pingTimeout\<close> or
  \<open>outgoingBuffer\<close>.
\<close>

definition inheritedNames :: "string list" where
  "inheritedNames =
     [''constructor'', ''toString'', ''toLocaleString'', ''valueOf'', ''hasOwnProperty'',
      ''isPrototypeOf'', ''propertyIsEnumerable'', ''__proto__'', ''__defineGetter__'',
      ''__defineSetter__'', ''__lookupGetter__'', ''__lookupSetter__'']"

text \<open>
  \<open>this._connections[name]\<close>: the record that the table holds under the name, else the
  inherited value if the name is one of \<open>Object.prototype\<close>, else \<open>undefined\<close>.
\<close>

datatype table_entry = Undefined | Inherited | Own nat

definition connectionOf :: "string \<Rightarrow> server \<Rightarrow> table_entry" where
  "connectionOf name st =
     (case map_of (connections st) name of
        Some r \<Rightarrow> Own r
      | None \<Rightarrow> if name \<in> set inheritedNames then Inherited else Undefined)"

text \<open>
  \<open>isConnected(remote)\<close>: an inherited value is not \<open>undefined\<close>, and its \<open>socket\<close>, which is
  \<open>undefined\<close>, is not \<open>null\<close>.
\<close>

definition isConnected :: "string \<Rightarrow> server \<Rightarrow> bool" where
  "isConnected remote st =
     (case connectionOf remote st of
        Undefined \<Rightarrow> False
      | Inherited \<Rightarrow> True
      | Own r \<Rightarrow> socket (records st r) \<noteq> None)"

text \<open>\<open>_findConnection(socket)\<close>: the first record of the table that holds the socket.\<close>

definition findConnection :: "nat \<Rightarrow> server \<Rightarrow> nat option" where
  "findConnection s st =
     (case filter (\<lambda>(ident, r). socket (records st r) = Some s) (connections st) of
        [] \<Rightarrow> None
      | (ident, r) # rest \<Rightarrow> Some r)"

text \<open>
  \<open>_sendTo\<close>, \<open>send\<close> and \<open>sendMany\<close>. The result says whether the call threw; a throw ends
  the loop it is in and keeps what was done before it. An inherited value passes the
  test \<open>connection === undefined\<close>; its \<open>socket\<close> is \<open>undefined\<close>, so the \<open>else\<close> branch runs, and
  \<open>connection.outgoingBuffer.push(msg)\<close> throws a \<open>TypeError\<close>, the buffer being \<open>undefined\<close>.
\<close>

definition sendTo :: "msg \<Rightarrow> string \<Rightarrow> server \<Rightarrow> error option \<times> server" where
  "sendTo m to st =
     (case connectionOf to st of
        Undefined \<Rightarrow> (Some (Error ''Invalid destination for server message''), st)
      | Inherited \<Rightarrow> (Some (TypeError ''Cannot read property push of undefined''), st)
      | Own r \<Rightarrow>
          (case socket (records st r) of
             Some s \<Rightarrow>
               if dataOk (records st r) then (None, say [Send s (JObject (withControl m))] st)
               else (None, modify r (\<lambda>c. c\<lparr>outgoingBuffer := outgoingBuffer c @ [m]\<rparr>) st)
           | None \<Rightarrow> (None, modify r (\<lambda>c. c\<lparr>outgoingBuffer := outgoingBuffer c @ [m]\<rparr>) st)))"

fun sendToEach :: "msg \<Rightarrow> string list \<Rightarrow> server \<Rightarrow> error option \<times> server" where
  "sendToEach m [] st = (None, st)"
| "sendToEach m (ident # idents) st =
     (case sendTo m ident st of
        (Some e, st') \<Rightarrow> (Some e, st')
      | (None, st') \<Rightarrow> sendToEach m idents st')"

definition server_send :: "msg \<Rightarrow> string option \<Rightarrow> server \<Rightarrow> error option \<times> server" where
  "server_send m to st =
     (case to of
        Some ident \<Rightarrow> sendTo m ident st
      | None \<Rightarrow> sendToEach m (map fst (connections st)) st)"

fun sendMany :: "msg list \<Rightarrow> string option \<Rightarrow> server \<Rightarrow> error option \<times> server" where
  "sendMany [] to st = (None, st)"
| "sendMany (m # buffer) to st =
     (case server_send m to st of
        (Some e, st') \<Rightarrow> (Some e, st')
      | (None, st') \<Rightarrow> sendMany buffer to st')"

text \<open>An exception that leaves a handler.\<close>

definition uncaught :: "error option \<times> server \<Rightarrow> server" where
  "uncaught p = (case p of (None, st) \<Rightarrow> st | (Some e, st) \<Rightarrow> say [ServerThrows e] st)"

text \<open>\<open>clearInterval(pingTimeout)\<close> when \<open>pingTimeout != -1\<close>; without a timer it does nothing.\<close>

definition clearPing :: "interval \<Rightarrow> server \<Rightarrow> server" where
  "clearPing p st =
     (case p of
        Interval t \<Rightarrow>
          say [ClearInterval t] (st\<lparr>intervals := filter (\<lambda>(t', r). t' \<noteq> t) (intervals st)\<rparr>)
      | _ \<Rightarrow> st)"

text \<open>\<open>_handleConnection(socket)\<close>: the record of the new socket; its handlers follow.\<close>

definition handleConnection :: "server \<Rightarrow> server" where
  "handleConnection st =
     say [ServerLog ''New connection from client'']
       (st\<lparr>records := (records st)(allocated st := newRecord (allocated st)),
           sockets := sockets st @ [allocated st],
           allocated := allocated st + 1\<rparr>)"

text \<open>JavaScript's truth value of \<open>msg.token\<close>.\<close>

definition truthy :: "json option \<Rightarrow> bool" where
  "truthy v =
     (case v of
        None \<Rightarrow> False
      | Some JNull \<Rightarrow> False
      | Some (JBool b) \<Rightarrow> b
      | Some (JNumber n) \<Rightarrow> n \<noteq> 0
      | Some (JString s) \<Rightarrow> s \<noteq> []
      | Some other \<Rightarrow> True)"

definition isString :: "json option \<Rightarrow> bool" where
  "isString v = (case v of Some (JString s) \<Rightarrow> True | _ \<Rightarrow> False)"

text \<open>
  The test of the \<open>auth\<close> branch, for the properties of a frame: the control is \<open>auth\<close>,
  the identity is a string, the token is defined and strictly equal to the configured
  one. (\<open>===\<close> holds between a JSON value and a string only for that same string.)
\<close>

definition authOk :: "server \<Rightarrow> json option \<Rightarrow> json option \<Rightarrow> json option \<Rightarrow> bool" where
  "authOk st control ident token =
     (\<not> (control \<noteq> Some (JString ''auth'') \<or> \<not> isString ident \<or> token = None
         \<or> token \<noteq> map_option JString (configuredToken st)))"

text \<open>
  The branch of the \<open>message\<close> handler for a socket \<open>s\<close> that has authenticated as
  \<open>ident\<close>, in the order of the code. \<open>oldConnection\<close> is read from the table before the
  table is changed. When the read finds an inherited value, nothing is done with it: it
  has no socket to terminate, \<open>clearInterval\<close> of its \<open>pingTimeout\<close>, which is \<open>undefined\<close>,
  clears nothing, and it has no buffer to flush; so \<open>oldConnection\<close> is here the record
  that the table holds under \<open>ident\<close>, if any. The assignment then makes \<open>ident\<close> a name
  that the table holds (for the name \<open>__proto__\<close> the assignment is to the table's
  prototype, which later reads of that name return; the model keeps it with the others).

  \<open>supersede\<close>: the old record's socket, if it has one, is terminated, and its timer
  cleared.
\<close>

definition supersede :: "nat option \<Rightarrow> server \<Rightarrow> server" where
  "supersede oldConnection st =
     (case oldConnection of
        None \<Rightarrow> st
      | Some r \<Rightarrow>
          clearPing (pingTimeout (records st r))
            (case socket (records st r) of
               None \<Rightarrow> st
             | Some old \<Rightarrow> say [Terminate old] st))"

text \<open>\<open>this._connections[connection.identity] = connection\<close>.\<close>

definition register :: "string \<Rightarrow> nat \<Rightarrow> server \<Rightarrow> server" where
  "register ident s st = st\<lparr>connections := AList.update ident s (connections st)\<rparr>"

text \<open>\<open>connection.pingTimeout = setInterval(...)\<close>.\<close>

definition startPing :: "nat \<Rightarrow> server \<Rightarrow> server" where
  "startPing s st =
     modify s (\<lambda>c. c\<lparr>pingTimeout := Interval (intervalsSet st)\<rparr>)
       (say [SetInterval (intervalsSet st) s]
          (st\<lparr>intervals := intervals st @ [(intervalsSet st, s)],
              intervalsSet := intervalsSet st + 1\<rparr>))"

text \<open>The assignments up to the start of the timer.\<close>

definition promote :: "nat \<Rightarrow> string \<Rightarrow> server \<Rightarrow> server" where
  "promote s ident st =
     (let st1 = modify s (\<lambda>c. c\<lparr>dataOk := True, identity := Some ident\<rparr>)
                  (say [ServerLog ''Client successfully authenticated''] st);
          oldConnection = map_of (connections st1) ident
      in startPing s (register ident s (supersede oldConnection st1)))"

text \<open>
  \<open>if (oldConnection && oldConnection.outgoingBuffer) this.sendMany(...)\<close>: the buffer is
  an array, which is never false.
\<close>

definition flushOld :: "nat option \<Rightarrow> string \<Rightarrow> server \<Rightarrow> error option \<times> server" where
  "flushOld oldConnection ident st =
     (case oldConnection of
        None \<Rightarrow> (None, st)
      | Some r \<Rightarrow> sendMany (outgoingBuffer (records st r)) (Some ident) st)"

definition authenticated :: "nat \<Rightarrow> string \<Rightarrow> server \<Rightarrow> server" where
  "authenticated s ident st =
     (case flushOld (map_of (connections st) ident) ident (promote s ident st) of
        (Some e, st') \<Rightarrow> say [ServerThrows e] st'
      | (None, st') \<Rightarrow> say [EmitConnected ident] st')"

text \<open>The \<open>message\<close> handler of socket \<open>s\<close>; its record is the record \<open>s\<close>.\<close>

definition onMessage :: "nat \<Rightarrow> wire \<Rightarrow> server \<Rightarrow> server" where
  "onMessage s data st =
     (case data of
        Unparsable \<Rightarrow> say [ServerLog ''Error parsing client message''] st
      | Parsed msg \<Rightarrow>
          (case property msg ''control'' of
             Inl e \<Rightarrow> say [ServerThrows e] st
           | Inr control \<Rightarrow>
               (let ident = (case property msg ''identity'' of Inl e \<Rightarrow> None | Inr v \<Rightarrow> v);
                    token = (case property msg ''token'' of Inl e \<Rightarrow> None | Inr v \<Rightarrow> v)
                in if \<not> dataOk (records st s) then
                     (if control = Some (JString ''set-auth-token'') then
                        (case (case token of
                                 Some v \<Rightarrow> if truthy token then setAuthToken (toText st v) st
                                           else (False, st)
                               | None \<Rightarrow> (False, st)) of
                           (True, st') \<Rightarrow>
                             modify s (\<lambda>c. c\<lparr>socket := None, closeOk := True, dataOk := False,
                                              closeCallback := False\<rparr>)
                               (say [ServerLog ''Received auth token from client'',
                                     Send s (JObject [(''control'', JString ''auth-token-ok'')])] st')
                         | (False, st') \<Rightarrow>
                             modify s (\<lambda>c. c\<lparr>socket := None, closeOk := True, dataOk := False,
                                              closeCallback := False\<rparr>)
                               (say [ServerLog ''Invalid initial setup message'',
                                     Send s (JObject [(''control'', JString ''auth-token-error'')])] st'))
                      else if \<not> authOk st control ident token then
                        say [ServerLog ''Invalid authentication message'', Terminate s] st
                      else
                        (case ident of
                           Some (JString name) \<Rightarrow> authenticated s name st
                         | _ \<Rightarrow> st))
                   else if findConnection s st = None then st
                   else if control \<noteq> Some (JString ''data'') then
                     say [ServerLog ''Invalid control message''] st
                   else say [ServerMessage (deleteControl msg) (identity (records st s))] st)))"

text \<open>The \<open>close\<close> handler of socket \<open>s\<close>.\<close>

definition onClose :: "nat \<Rightarrow> server \<Rightarrow> server" where
  "onClose s st =
     (case findConnection s st of
        None \<Rightarrow> st
      | Some r \<Rightarrow>
          (let st1 = clearPing (pingTimeout (records st r)) st
           in if closeOk (records st1 r) then
                (if closeCallback (records st1 r) then say [CloseCallback r] st1 else st1)
              else
                modify r (\<lambda>c. c\<lparr>socket := None, closeOk := False, dataOk := False\<rparr>)
                  (say [ServerLog ''Lost connection from client''] st1)))"

text \<open>The callback of the interval timer \<open>t\<close>.\<close>

definition onInterval :: "nat \<Rightarrow> server \<Rightarrow> server" where
  "onInterval t st =
     (case map_of (intervals st) t of
        None \<Rightarrow> st
      | Some r \<Rightarrow>
          (case socket (records st r) of None \<Rightarrow> st | Some s \<Rightarrow> say [PingSocket s] st))"

text \<open>
  \<open>closeOne(identity)\<close> as far as it runs at once, and its 10 s timeout for the record
  \<open>r\<close>; \<open>close()\<close> does the same for every identity of the table. For an inherited value
  \<open>closeOne\<close> changes nothing: \<open>connection.socket.send\<close> throws inside the promise, which
  is rejected.
\<close>

definition closeRecord :: "nat \<Rightarrow> server \<Rightarrow> server" where
  "closeRecord r st =
     (case socket (records st r) of
        Some s \<Rightarrow>
          modify r (\<lambda>c. c\<lparr>closeOk := True, closeCallback := True\<rparr>)
            (say [Send s (JObject [(''control'', JString ''close'')])] st)
      | None \<Rightarrow> modify r (\<lambda>c. c\<lparr>closeOk := False, closeCallback := False\<rparr>) st)"

definition closeOne :: "string \<Rightarrow> server \<Rightarrow> server" where
  "closeOne ident st =
     (case connectionOf ident st of
        Undefined \<Rightarrow> st
      | Inherited \<Rightarrow> st
      | Own r \<Rightarrow> closeRecord r st)"

definition server_close :: "server \<Rightarrow> server" where
  "server_close st = fold closeRecord (map snd (connections st)) st"

definition closeTimeout :: "nat \<Rightarrow> server \<Rightarrow> server" where
  "closeTimeout r st =
     (case socket (records st r) of None \<Rightarrow> st | Some s \<Rightarrow> say [Terminate s] st)"

text \<open>
  What can happen to a server: a new socket, the events of an accepted socket, a timer,
  and calls of its methods. Each starts with no effect recorded.
\<close>

datatype server_event =
    Connection
  | Message nat wire
  | Closed nat
  | Pinged nat
  | IntervalFires nat
  | CloseTimesOut nat
  | CallServerSend msg "string option"
  | CallSendMany "msg list" "string option"
  | CallCloseOne string
  | CallServerClose

fun handle :: "server_event \<Rightarrow> server \<Rightarrow> server" where
  "handle Connection st = handleConnection st"
| "handle (Message s data) st = (if s \<in> set (sockets st) then onMessage s data st else st)"
| "handle (Closed s) st = (if s \<in> set (sockets st) then onClose s st else st)"
| "handle (Pinged s) st = (if s \<in> set (sockets st) then say [PongSocket s] st else st)"
| "handle (IntervalFires t) st = onInterval t st"
| "handle (CloseTimesOut r) st = closeTimeout r st"
| "handle (CallServerSend m to) st = uncaught (server_send m to st)"
| "handle (CallSendMany buffer to) st = uncaught (sendMany buffer to st)"
| "handle (CallCloseOne ident) st = closeOne ident st"
| "handle CallServerClose st = server_close st"

definition server_step :: "server_event \<Rightarrow> server \<Rightarrow> server" where
  "server_step e st = handle e (st\<lparr>out := []\<rparr>)"

fun server_run :: "server_event list \<Rightarrow> server \<Rightarrow> server" where
  "server_run [] st = st"
| "server_run (e # es) st = server_run es (server_step e st)"

text \<open>
  A frame that the \<open>auth\<close> branch accepts in the state \<open>st\<close>: it parses to a value whose
  control is \<open>auth\<close>, whose identity is a string and whose token is the configured token.
\<close>

definition authFrame :: "server \<Rightarrow> wire \<Rightarrow> bool" where
  "authFrame st data =
     (case data of
        Unparsable \<Rightarrow> False
      | Parsed msg \<Rightarrow>
          (case msg of
             JObject kvs \<Rightarrow>
               map_of kvs ''control'' = Some (JString ''auth'')
               \<and> isString (map_of kvs ''identity'')
               \<and> map_of kvs ''token'' \<noteq> None
               \<and> map_of kvs ''token'' = map_option JString (configuredToken st)
           | _ \<Rightarrow> False))"

text \<open>
  Among the events \<open>evs\<close>, handled from the state \<open>st\<close> on, there is a frame on socket \<open>s\<close>
  that arrives while the socket's record is not yet authenticated and that the \<open>auth\<close>
  branch accepts in the state in which it arrives.
\<close>

fun authenticatedBy :: "nat \<Rightarrow> server_event list \<Rightarrow> server \<Rightarrow> bool" where
  "authenticatedBy s [] st = False"
| "authenticatedBy s (e # es) st =
     ((case e of
         Message s' data \<Rightarrow>
           s' = s \<and> s \<in> set (sockets st) \<and> \<not> dataOk (records st s) \<and> authFrame st data
       | _ \<Rightarrow> False)
      \<or> authenticatedBy s es (server_step e st))"

chapter \<open>Properties\<close>

section \<open>Pipe sinks\<close>

lemma sink_run_append:
  "sink_run (xs @ ys) s =
     (case sink_run xs s of (s', d) \<Rightarrow>
        (case sink_run ys s' of (s'', d') \<Rightarrow> (s'', d @ d')))"
  by (induction xs arbitrary: s) (auto split: prod.splits)

lemma sink_run_insert:
  assumes "count_list mid Tick \<le> length old" and "timers s = old @ new"
  shows "\<exists>old' new'. timers (fst (sink_run mid s)) = old' @ new'
           \<and> length old' = length old - count_list mid Tick
           \<and> sink_run mid (s\<lparr>timers := old @ e # new\<rparr>)
               = ((fst (sink_run mid s))\<lparr>timers := old' @ e # new'\<rparr>, snd (sink_run mid s))"
  using assms
proof (induction mid arbitrary: s old new)
  case Nil
  then show ?case by auto
next
  case (Cons op mid)
  show ?case
  proof (cases op)
    case (AddSource x)
    have c: "count_list mid Tick \<le> length old" using Cons.prems(1) AddSource by simp
    have t: "timers (addSource x s) = old @ new" using Cons.prems(2) by (simp add: addSource_def)
    have u: "addSource x (s\<lparr>timers := old @ e # new\<rparr>) = (addSource x s)\<lparr>timers := old @ e # new\<rparr>"
      by (simp add: addSource_def)
    from Cons.IH[OF c t] AddSource u show ?thesis
      by (auto split: prod.splits)
  next
    case (RemoveSource x)
    have c: "count_list mid Tick \<le> length old" using Cons.prems(1) RemoveSource by simp
    have t: "timers (removeSource x s) = old @ new"
      using Cons.prems(2) by (simp add: removeSource_def)
    have u: "removeSource x (s\<lparr>timers := old @ e # new\<rparr>)
               = (removeSource x s)\<lparr>timers := old @ e # new\<rparr>"
      by (simp add: removeSource_def)
    from Cons.IH[OF c t] RemoveSource u show ?thesis
      by (auto split: prod.splits)
  next
    case (SendEvent e2)
    have c: "count_list mid Tick \<le> length old" using Cons.prems(1) SendEvent by simp
    have t: "timers (sendEvent e2 s) = old @ (new @ [e2])"
      using Cons.prems(2) by (simp add: sendEvent_def)
    have u: "sendEvent e2 (s\<lparr>timers := old @ e # new\<rparr>)
               = (sendEvent e2 s)\<lparr>timers := old @ e # (new @ [e2])\<rparr>"
      by (simp add: sendEvent_def)
    from Cons.IH[OF c t] SendEvent u show ?thesis
      by (auto split: prod.splits)
  next
    case Tick
    from Cons.prems(1) Tick obtain o1 olds where old: "old = o1 # olds"
      by (cases old) auto
    have c: "count_list mid Tick \<le> length olds" using Cons.prems(1) Tick old by simp
    have t: "timers (fst (tick s)) = olds @ new"
      using Cons.prems(2) old by (simp add: tick_def)
    have u: "tick (s\<lparr>timers := old @ e # new\<rparr>)
               = ((fst (tick s))\<lparr>timers := olds @ e # new\<rparr>, snd (tick s))"
      using Cons.prems(2) old by (simp add: tick_def)
    from Cons.IH[OF c t] obtain old' new' where
      "timers (fst (sink_run mid (fst (tick s)))) = old' @ new'"
      "length old' = length olds - count_list mid Tick"
      "sink_run mid ((fst (tick s))\<lparr>timers := olds @ e # new\<rparr>)
         = ((fst (sink_run mid (fst (tick s))))\<lparr>timers := old' @ e # new'\<rparr>,
            snd (sink_run mid (fst (tick s))))"
      by blast
    with Tick u old show ?thesis
      by (intro exI[of _ old'] exI[of _ new']) (auto split: prod.splits)
  qed
qed

lemma sink_run_sources:
  assumes "\<forall>x \<in> set mid. x = Tick \<or> (\<exists>e. x = SendEvent e)"
  shows "sources (fst (sink_run mid s)) = sources s"
  using assms
proof (induction mid arbitrary: s)
  case Nil
  then show ?case by simp
next
  case (Cons x mid)
  have "sources (fst (sink_step x s)) = sources s"
    using Cons.prems by (auto simp: sendEvent_def tick_def split: list.splits)
  moreover have "sources (fst (sink_run mid (fst (sink_step x s)))) = sources (fst (sink_step x s))"
    using Cons.IH Cons.prems by simp
  moreover have "fst (sink_run (x # mid) s) = fst (sink_run mid (fst (sink_step x s)))"
    by (simp split: prod.splits)
  ultimately show ?case by simp
qed

lemma sink_run_fires:
  assumes "count_list mid Tick = length (timers s)"
  shows "sink_run (SendEvent e # mid @ [Tick]) s
           = (fst (sink_run mid s),
              snd (sink_run mid s) @ fanOut (sources (fst (sink_run mid s))) e)"
proof -
  have c: "count_list mid Tick \<le> length (timers s)" using assms by simp
  have t: "timers s = timers s @ []" by simp
  from sink_run_insert[OF c t, of e] obtain old' new' where
    t': "timers (fst (sink_run mid s)) = old' @ new'"
    and l: "length old' = length (timers s) - count_list mid Tick"
    and r: "sink_run mid (s\<lparr>timers := timers s @ [e]\<rparr>)
              = ((fst (sink_run mid s))\<lparr>timers := old' @ e # new'\<rparr>, snd (sink_run mid s))"
    by auto
  from l assms have o: "old' = []" by simp
  have "sink_run (SendEvent e # mid @ [Tick]) s
          = (case sink_run mid (sendEvent e s) of (s', d) \<Rightarrow>
               (case sink_run [Tick] s' of (s'', d') \<Rightarrow> (s'', d @ d')))"
    by (simp add: sink_run_append)
  also have "sendEvent e s = s\<lparr>timers := timers s @ [e]\<rparr>" by (simp add: sendEvent_def)
  finally show ?thesis
    using r t' o by (simp add: tick_def)
qed

text \<open>
  A send with no source attached is not dropped at the send: its timer reads the sources
  when it fires, so a source attached between the send and the timer receives the
  event; and a source attached at the send and detached before the timer does not.
\<close>

theorem pipe_sink_reads_sources_when_timer_fires:
  "\<not> hasSources (new_sink :: nat pipe_sink)
   \<and> snd (sink_run [SendEvent (7::nat), AddSource 1, Tick] new_sink) = [(1, 7)]
   \<and> sources (fst (sink_run [AddSource 1, AddSource 2] (new_sink :: nat pipe_sink))) = [1, 2]
   \<and> snd (sink_run [AddSource 1, AddSource 2, SendEvent (7::nat), RemoveSource 1, Tick] new_sink)
        = [(2, 7)]"
  by (simp add: new_sink_def hasSources_def sendEvent_def addSource_def removeSource_def
        tick_def fanOut_def)

text \<open>
  C8, as amended. The sources that count for a sent event are those attached when its
  timer fires. Let \<open>e\<close> be sent on a sink in any state, with any timers of earlier sends
  pending, and let \<open>mid\<close> be whatever happens until the timer of \<open>e\<close> is due: sources
  attached and detached, more events sent, and the firing of exactly the timers that
  were pending before \<open>e\<close>. Then the firing of the timer of \<open>e\<close> delivers \<open>e\<close> once to each
  source attached at that moment, in the order of attachment, and leaves the sink as if
  \<open>e\<close> had never been sent; what was delivered before is what would have been delivered
  without \<open>e\<close>. So
  \<^item> with no source attached then, \<open>e\<close> is delivered to nobody and nothing of it is kept;
  \<^item> with the two sources \<open>a\<close> and \<open>b\<close> attached then, \<open>e\<close> is delivered exactly once to \<open>a\<close>
    and exactly once to \<open>b\<close>;
  \<^item> after \<open>removeSource x\<close>, an event sent afterwards (no source being attached or
    detached before its timer fires) is delivered to the sources other than \<open>x\<close> and not
    to \<open>x\<close>: of \<open>a\<close> and \<open>b\<close>, to \<open>b\<close> alone when \<open>a\<close> was detached and to \<open>a\<close> alone when \<open>b\<close> was.
\<close>

theorem pipe_sink_fan_out:
  assumes "count_list mid Tick = length (timers s)"
  shows "sink_run (SendEvent e # mid @ [Tick]) s
           = (fst (sink_run mid s),
              snd (sink_run mid s) @ fanOut (sources (fst (sink_run mid s))) e)
       \<and> (sources (fst (sink_run mid s)) = [] \<longrightarrow>
            sink_run (SendEvent e # mid @ [Tick]) s = sink_run mid s)
       \<and> (sources (fst (sink_run mid s)) = [a, b] \<and> a \<noteq> b \<longrightarrow>
            snd (sink_run (SendEvent e # mid @ [Tick]) s)
              = snd (sink_run mid s) @ [(a, e), (b, e)]
          \<and> count_list (fanOut (sources (fst (sink_run mid s))) e) (a, e) = 1
          \<and> count_list (fanOut (sources (fst (sink_run mid s))) e) (b, e) = 1)
       \<and> ((\<forall>op \<in> set mid. op = Tick \<or> (\<exists>e'. op = SendEvent e')) \<longrightarrow>
            snd (sink_run (RemoveSource x # SendEvent e # mid @ [Tick]) s)
              = snd (sink_run mid (removeSource x s))
                @ fanOut (filter (\<lambda>y. y \<noteq> x) (sources s)) e
          \<and> (sources s = [a, b] \<and> a \<noteq> b \<longrightarrow>
               snd (sink_run (RemoveSource a # SendEvent e # mid @ [Tick]) s)
                 = snd (sink_run mid (removeSource a s)) @ [(b, e)]
             \<and> snd (sink_run (RemoveSource b # SendEvent e # mid @ [Tick]) s)
                 = snd (sink_run mid (removeSource b s)) @ [(a, e)]))"
proof -
  note fires = sink_run_fires[OF assms, of e]
  have removed: "snd (sink_run (RemoveSource y # SendEvent e # mid @ [Tick]) s)
                   = snd (sink_run mid (removeSource y s))
                     @ fanOut (filter (\<lambda>z. z \<noteq> y) (sources s)) e"
    if quiet: "\<forall>op \<in> set mid. op = Tick \<or> (\<exists>e'. op = SendEvent e')" for y
  proof -
    have c: "count_list mid Tick = length (timers (removeSource y s))"
      using assms by (simp add: removeSource_def)
    have "sources (fst (sink_run mid (removeSource y s))) = sources (removeSource y s)"
      by (rule sink_run_sources[OF quiet])
    then have "sources (fst (sink_run mid (removeSource y s)))
                 = filter (\<lambda>z. z \<noteq> y) (sources s)"
      by (simp add: removeSource_def)
    with sink_run_fires[OF c, of e] show ?thesis by simp
  qed
  show ?thesis
    using fires removed[of x] removed[of a] removed[of b]
    by (auto simp: fanOut_def)
qed

theorem pipe_sink_fan_out_witness:
  "count_list [Tick, SendEvent 9] Tick = length (timers (\<lparr>sources = [1, 2], timers = [5]\<rparr> :: nat pipe_sink))
   \<and> sink_run [SendEvent (7::nat), Tick, SendEvent 9, Tick] \<lparr>sources = [1, 2], timers = [5]\<rparr>
       = (\<lparr>sources = [1, 2], timers = [9]\<rparr>, [(1, 5), (2, 5), (1, 7), (2, 7)])
   \<and> snd (sink_run [RemoveSource 2, SendEvent (7::nat), Tick, SendEvent 9, Tick]
             \<lparr>sources = [1, 2], timers = [5]\<rparr>)
       = [(1, 5), (1, 7)]
   \<and> snd (sink_run [RemoveSource 1, SendEvent (7::nat), Tick, SendEvent 9, Tick]
             \<lparr>sources = [1, 2], timers = [5]\<rparr>)
       = [(2, 5), (2, 7)]
   \<and> count_list [] Tick = length (timers (new_sink :: nat pipe_sink))
   \<and> sink_run [SendEvent (7::nat), Tick] (new_sink :: nat pipe_sink) = (new_sink, [])"
  using pipe_sink_fan_out [where s = "\<lparr>sources = [1, 2], timers = [5]\<rparr>"
                             and mid = "[Tick, SendEvent 9]"
                             and a = 1 and b = 2 and x = 2 and e = "7::nat"]
        pipe_sink_fan_out [where s = "new_sink :: nat pipe_sink" and mid = "[]" and e = "7::nat"]
  by (simp add: new_sink_def sendEvent_def removeSource_def tick_def fanOut_def)

section \<open>Channel state binder\<close>

















section \<open>Channel factory\<close>

lemma getChannel_cache_mono:
  "getChannel eng dev kind mode params fo f = (r, f') \<Longrightarrow> cachedChannels f u = Some c
   \<Longrightarrow> cachedChannels f' u = Some c"
  by (auto simp: getChannel_def Let_def split: sum.splits if_splits option.splits prod.splits)

lemma getChannel_in_cache:
  "getChannel eng (call_device c) (call_kind c) (call_mode c) (call_params c) (call_forOpen c) f
     = (Inr ch, f')
   \<Longrightarrow> \<exists>uid. normalizedId c = Some uid \<and> cachedChannels f' uid = Some ch"
  by (auto simp: getChannel_def normalizedId_def Let_def
           split: sum.splits if_splits option.splits prod.splits)

lemma getChannel_hit:
  "getChannel eng (call_device c) (call_kind c) (call_mode c) (call_params c) (call_forOpen c) f
     = (Inr ch, f')
   \<Longrightarrow> normalizedId c = Some uid \<Longrightarrow> cachedChannels f uid = Some c0 \<Longrightarrow> ch = c0"
  by (auto simp: getChannel_def normalizedId_def Let_def
           split: sum.splits if_splits option.splits prod.splits)

lemma getChannel_constructed:
  "constructed (snd (getChannel eng (call_device c) (call_kind c) (call_mode c) (call_params c)
                       (call_forOpen c) f))
     = constructed f + (if runsConstructor eng c then 1 else 0)"
  by (auto simp: getChannel_def runsConstructor_def Let_def
           split: sum.splits if_splits option.splits prod.splits)


lemma getChannel_frame:
  "getChannel eng dev kind mode params fo f = (r, f') \<Longrightarrow>
   proxyCalls f' = proxyCalls f \<and> opens f' = opens f \<and> proxyManager f' = proxyManager f"
  by (auto simp: getChannel_def Let_def split: sum.splits if_splits option.splits prod.splits)

lemma getChannels_length: "getChannels eng cs f = (rs, f') \<Longrightarrow> length rs = length cs"
  by (induction cs arbitrary: f rs f') (auto split: prod.splits)

lemma getChannels_follow_cache:
  "getChannels eng cs f = (rs, f') \<Longrightarrow> cachedChannels f uid = Some c0 \<Longrightarrow>
   j < length cs \<Longrightarrow> rs ! j = Inr cj \<Longrightarrow> normalizedId (cs ! j) = Some uid \<Longrightarrow> cj = c0"
proof (induction cs arbitrary: f rs j)
  case Nil
  then show ?case by simp
next
  case (Cons c cs)
  obtain r f1 where g: "getChannel eng (call_device c) (call_kind c) (call_mode c) (call_params c)
                          (call_forOpen c) f = (r, f1)"
    by (cases "getChannel eng (call_device c) (call_kind c) (call_mode c) (call_params c)
                 (call_forOpen c) f") auto
  obtain rs1 where gs: "getChannels eng cs f1 = (rs1, f')" and rs: "rs = r # rs1"
    using Cons.prems(1) g by (auto split: prod.splits)
  have keep: "cachedChannels f1 uid = Some c0"
    by (rule getChannel_cache_mono[OF g Cons.prems(2)])
  show ?case
  proof (cases j)
    case 0
    with Cons.prems rs have "r = Inr cj" and "normalizedId c = Some uid" by simp_all
    with g Cons.prems(2) show ?thesis by (auto dest: getChannel_hit)
  next
    case (Suc j')
    with Cons.prems rs have "j' < length cs" "rs1 ! j' = Inr cj" "normalizedId (cs ! j') = Some uid"
      by simp_all
    with Cons.IH[OF gs keep] show ?thesis by blast
  qed
qed

lemma getChannels_same_instance:
  "getChannels eng cs f = (rs, f') \<Longrightarrow> i < j \<Longrightarrow> j < length cs \<Longrightarrow>
   rs ! i = Inr ci \<Longrightarrow> rs ! j = Inr cj \<Longrightarrow> normalizedId (cs ! i) = normalizedId (cs ! j) \<Longrightarrow> ci = cj"
proof (induction cs arbitrary: f rs i j)
  case Nil
  then show ?case by simp
next
  case (Cons c cs)
  obtain r f1 where g: "getChannel eng (call_device c) (call_kind c) (call_mode c) (call_params c)
                          (call_forOpen c) f = (r, f1)"
    by (cases "getChannel eng (call_device c) (call_kind c) (call_mode c) (call_params c)
                 (call_forOpen c) f") auto
  obtain rs1 where gs: "getChannels eng cs f1 = (rs1, f')" and rs: "rs = r # rs1"
    using Cons.prems(1) g by (auto split: prod.splits)
  from Cons.prems(2) obtain j' where j: "j = Suc j'" by (cases j) auto
  with Cons.prems rs have j': "j' < length cs" "rs1 ! j' = Inr cj" by simp_all
  show ?case
  proof (cases i)
    case 0
    with Cons.prems rs have r: "r = Inr ci" by simp
    from g r obtain uid where u: "normalizedId c = Some uid" "cachedChannels f1 uid = Some ci"
      by (auto dest: getChannel_in_cache)
    from Cons.prems(6) 0 j u have "normalizedId (cs ! j') = Some uid" by simp
    from getChannels_follow_cache[OF gs u(2) j'(1) j'(2) this] show ?thesis by simp
  next
    case (Suc i')
    with Cons.prems rs j have "i' < j'" "rs1 ! i' = Inr ci" "normalizedId (cs ! i') = normalizedId (cs ! j')"
      by simp_all
    with Cons.IH[OF gs _ j'(1) _ j'(2)] show ?thesis by blast
  qed
qed

lemma getChannels_constructed:
  "constructed (snd (getChannels eng cs f)) = constructed f + length (filter (runsConstructor eng) cs)"
proof (induction cs arbitrary: f)
  case Nil
  then show ?case by simp
next
  case (Cons c cs)
  obtain r f1 where g: "getChannel eng (call_device c) (call_kind c) (call_mode c) (call_params c)
                          (call_forOpen c) f = (r, f1)"
    by (cases "getChannel eng (call_device c) (call_kind c) (call_mode c) (call_params c)
                 (call_forOpen c) f") auto
  have "constructed f1 = constructed f + (if runsConstructor eng c then 1 else 0)"
    using getChannel_constructed[of eng c f] g by simp
  moreover have "snd (getChannels eng (c # cs) f) = snd (getChannels eng cs f1)"
    using g by (simp split: prod.splits)
  ultimately show ?case using Cons.IH[of f1] by simp
qed


text \<open>
  C1, as amended. In a sequence of \<open>getChannel\<close> calls made one after the other, any two
  calls that succeed and whose parameters normalize to the same \<open>uniqueId\<close> return the same
  channel instance; and the channel constructor runs once for every call that passes the
  class lookup and the capability check, so the sequence runs it as many times as it
  has such calls, not at most once.
\<close>

theorem getChannels_dedup:
  assumes "getChannels eng cs f = (rs, f')"
  shows "length rs = length cs
       \<and> (\<forall>i j ci cj. i < length cs \<and> j < length cs \<and> rs ! i = Inr ci \<and> rs ! j = Inr cj
              \<and> normalizedId (cs ! i) = normalizedId (cs ! j) \<longrightarrow> ci = cj)
       \<and> constructed f' = constructed f + length (filter (runsConstructor eng) cs)"
proof -
  have same: "ci = cj"
    if "i < length cs" "j < length cs" "rs ! i = Inr ci" "rs ! j = Inr cj"
       "normalizedId (cs ! i) = normalizedId (cs ! j)" for i j ci cj
  proof -
    consider "i < j" | "j < i" | "i = j" by linarith
    then show ?thesis
    proof cases
      case 1
      from getChannels_same_instance[OF assms 1 that(2) that(3) that(4) that(5)] show ?thesis .
    next
      case 2
      from getChannels_same_instance[OF assms 2 that(1) that(4) that(3) that(5)[symmetric]]
      show ?thesis by simp
    next
      case 3
      with that show ?thesis by simp
    qed
  qed
  have "constructed f' = constructed f + length (filter (runsConstructor eng) cs)"
    using getChannels_constructed[of eng cs f] assms by simp
  with getChannels_length[OF assms] same show ?thesis by blast
qed

text \<open>
  The constructor is not run at most once: two calls for the same action of the same
  device normalize to one id and return one instance (reference 0), and the constructor
  has run twice.
\<close>

theorem getChannel_constructor_runs_twice:
  "normalizedId toggle_call = Some ''lamp-toggle''
   \<and> fst (getChannels server_engine [toggle_call, toggle_call]
            (new_factory :: (string, nat) channel_factory))
       = [Inr \<lparr>ref = 0, channel_uniqueId = ''lamp-toggle'', filterString = None, state = None\<rparr>,
          Inr \<lparr>ref = 0, channel_uniqueId = ''lamp-toggle'', filterString = None, state = None\<rparr>]
   \<and> constructed (snd (getChannels server_engine [toggle_call, toggle_call]
            (new_factory :: (string, nat) channel_factory))) = 2"
  by (simp add: getChannel_def normalizedId_def getClass_def makeUniqueId_def toggle_call_def
        lamp_def plain_class_def server_engine_def new_factory_def checkFactoryCaps_def Let_def)


lemmas example_defs =
  getChannel_def normalizedId_def getClass_def makeUniqueId_def toggle_call_def power_call_def
  lamp_def plain_class_def stateful_class_def server_engine_def phone_engine_def new_factory_def
  checkFactoryCaps_def runsConstructor_def Let_def
  open_binder_def close_binder_def doOpen_def doClose_def flushToDisk_def getOne_def insertOne_def
  init_def new_binder_def

theorem getChannels_dedup_witness:
  "length (fst (getChannels server_engine [toggle_call, power_call, toggle_call]
                  (new_factory :: (string, nat) channel_factory))) = 3
   \<and> constructed (snd (getChannels server_engine [toggle_call, power_call, toggle_call]
                  (new_factory :: (string, nat) channel_factory))) = 3
   \<and> fst (getChannels server_engine [toggle_call, power_call, toggle_call]
                  (new_factory :: (string, nat) channel_factory)) ! 0
       = Inr \<lparr>ref = 0, channel_uniqueId = ''lamp-toggle'', filterString = None, state = None\<rparr>
   \<and> fst (getChannels server_engine [toggle_call, power_call, toggle_call]
                  (new_factory :: (string, nat) channel_factory)) ! 2
       = Inr \<lparr>ref = 0, channel_uniqueId = ''lamp-toggle'', filterString = None, state = None\<rparr>"
proof -
  let ?cs = "[toggle_call, power_call, toggle_call]"
  let ?f = "new_factory :: (string, nat) channel_factory"
  let ?G = "getChannels server_engine ?cs ?f"
  let ?c0 = "\<lparr>ref = 0, channel_uniqueId = ''lamp-toggle'', filterString = None, state = None\<rparr>"
  have g: "?G = (fst ?G, snd ?G)" by simp
  note th = getChannels_dedup[OF g]
  have r0: "fst ?G ! 0 = Inr ?c0"
    by (simp add: example_defs)
  have "\<exists>c. fst ?G ! 2 = Inr c"
    by (simp add: example_defs)
  then obtain c2 where r2: "fst ?G ! 2 = Inr c2" by blast
  have n: "normalizedId (?cs ! 0) = normalizedId (?cs ! 2)" by simp
  have "?c0 = c2"
    using th[THEN conjunct2, THEN conjunct1, rule_format, of 0 2 ?c0 c2] r0 r2 n by simp
  with r2 have r2': "fst ?G ! 2 = Inr ?c0" by simp
  have l: "length (fst ?G) = 3" using th[THEN conjunct1] by simp
  have c: "constructed (snd ?G) = 3"
    using th[THEN conjunct2, THEN conjunct2] by (simp add: example_defs)
  from l c r0 r2' show ?thesis by (intro conjI)
qed

text \<open>
  C4. The code at the input of the claim: the stateful trigger \<open>power\<close> of \<open>lamp\<close> is
  requested twice. The second call finds the id in the cache and returns the cached
  instance (reference 0, binder 0), as the claim says. But the binder it allocated for
  the discarded channel (binder 1) is left open, with use count 1 and nothing flushed
  for it, while the binder of the cached instance (binder 0) was closed by the first
  call, on the branch that stores the channel: its use count is 0 and the only write is
  that close's flush. The call \<open>state.close()\<close> stands on the branch for an id that is not
  yet cached, not on the branch for one that is.
\<close>

theorem getChannel_closes_kept_binder:
  "fst (getChannels server_engine [power_call, power_call]
            (new_factory :: (string, nat) channel_factory))
       = [Inr \<lparr>ref = 0, channel_uniqueId = ''lamp-power'', filterString = None, state = Some 0\<rparr>,
          Inr \<lparr>ref = 0, channel_uniqueId = ''lamp-power'', filterString = None, state = Some 0\<rparr>]
   \<and> map useCount (binders (snd (getChannels server_engine [power_call, power_call]
            (new_factory :: (string, nat) channel_factory)))) = [0, 1]
   \<and> map fst (writes (factory_db (snd (getChannels server_engine [power_call, power_call]
            (new_factory :: (string, nat) channel_factory))))) = [Some ''lamp-power'']"
  by (simp add: example_defs)

text \<open>
  C7, as amended. When the device's owner tier is the engine's own tier or \<open>GLOBAL\<close>, the
  channel is obtained with \<open>getChannel\<close> (\<open>forOpen = true\<close>) and, when that succeeds, opened;
  the Proxy Manager is not called. Otherwise a local instance is first obtained with
  \<open>getChannel\<close> (\<open>forOpen = false\<close>); when that succeeds (and a Proxy Manager is set) the
  Proxy Manager is called once, with the target tier \<open>device.ownerTier\<close>, the target id
  \<open>deviceId + '-' + kind\<close>, extended by \<open>'-'\<close> and the serialized parameters for mode \<open>r\<close>,
  and that local instance, and the proxy channel it returns is opened; when the local
  \<open>getChannel\<close> fails, the call fails with its error, and the Proxy Manager is not
  called and nothing is opened.
\<close>

theorem getOpenedChannel_placement:
  fixes f :: "('p, 'v) channel_factory"
  shows
  "(ownerTier dev = ownTier eng \<or> ownerTier dev = GLOBAL \<longrightarrow>
      proxyCalls (snd (getOpenedChannel eng dev kind mode params f)) = proxyCalls f
    \<and> (\<forall>ch f'. getChannel eng dev kind mode params True f = (Inr ch, f') \<longrightarrow>
          getOpenedChannel eng dev kind mode params f
            = (Inr (LocalChannel ch), f'\<lparr>opens := opens f @ [LocalChannel ch]\<rparr>))
    \<and> (\<forall>e f'. getChannel eng dev kind mode params True f = (Inl e, f') \<longrightarrow>
          getOpenedChannel eng dev kind mode params f = (Inl e, f')))
 \<and> (ownerTier dev \<noteq> ownTier eng \<and> ownerTier dev \<noteq> GLOBAL \<longrightarrow>
      (\<forall>local f'. getChannel eng dev kind mode params False f = (Inr local, f') \<and> proxyManager f \<longrightarrow>
          getOpenedChannel eng dev kind mode params f
            = (Inr (ProxyChannel (length (proxyCalls f))),
               f'\<lparr>proxyCalls := proxyCalls f @
                     [\<lparr>targetChannelId =
                         (if mode = ''r''
                          then device_uniqueId dev @ ''-'' @ kind @ ''-'' @ makeString eng params
                          else device_uniqueId dev @ ''-'' @ kind),
                       targetTier = ownerTier dev,
                       proxy_device = device_uniqueId dev, proxy_local = ref local,
                       proxy_kind = kind, proxy_mode = mode, proxy_params = params\<rparr>],
                  opens := opens f @ [ProxyChannel (length (proxyCalls f))]\<rparr>))
    \<and> (\<forall>e f'. getChannel eng dev kind mode params False f = (Inl e, f') \<longrightarrow>
          getOpenedChannel eng dev kind mode params f = (Inl e, f')
        \<and> proxyCalls f' = proxyCalls f \<and> opens f' = opens f))"
proof -
  have fr: "proxyCalls f' = proxyCalls f \<and> opens f' = opens f \<and> proxyManager f' = proxyManager f"
    if "getChannel eng dev kind mode params fo f = (r, f')" for fo r f'
    using that by (rule getChannel_frame)
  have loc: "ownerTier dev = ownTier eng \<or> ownerTier dev = GLOBAL \<longrightarrow>
      proxyCalls (snd (getOpenedChannel eng dev kind mode params f)) = proxyCalls f
    \<and> (\<forall>ch f'. getChannel eng dev kind mode params True f = (Inr ch, f') \<longrightarrow>
          getOpenedChannel eng dev kind mode params f
            = (Inr (LocalChannel ch), f'\<lparr>opens := opens f @ [LocalChannel ch]\<rparr>))
    \<and> (\<forall>e f'. getChannel eng dev kind mode params True f = (Inl e, f') \<longrightarrow>
          getOpenedChannel eng dev kind mode params f = (Inl e, f'))"
  proof
    assume own: "ownerTier dev = ownTier eng \<or> ownerTier dev = GLOBAL"
    obtain r f' where g: "getChannel eng dev kind mode params True f = (r, f')"
      by (cases "getChannel eng dev kind mode params True f") auto
    from fr[OF g] own g
    show "proxyCalls (snd (getOpenedChannel eng dev kind mode params f)) = proxyCalls f
      \<and> (\<forall>ch f'. getChannel eng dev kind mode params True f = (Inr ch, f') \<longrightarrow>
          getOpenedChannel eng dev kind mode params f
            = (Inr (LocalChannel ch), f'\<lparr>opens := opens f @ [LocalChannel ch]\<rparr>))
      \<and> (\<forall>e f'. getChannel eng dev kind mode params True f = (Inl e, f') \<longrightarrow>
          getOpenedChannel eng dev kind mode params f = (Inl e, f'))"
      by (cases r) (simp_all add: getOpenedChannel_def openChannel_def localChannel_def)
  qed
  have rem: "ownerTier dev \<noteq> ownTier eng \<and> ownerTier dev \<noteq> GLOBAL \<longrightarrow>
      (\<forall>local f'. getChannel eng dev kind mode params False f = (Inr local, f') \<and> proxyManager f \<longrightarrow>
          getOpenedChannel eng dev kind mode params f
            = (Inr (ProxyChannel (length (proxyCalls f))),
               f'\<lparr>proxyCalls := proxyCalls f @
                     [\<lparr>targetChannelId =
                         (if mode = ''r''
                          then device_uniqueId dev @ ''-'' @ kind @ ''-'' @ makeString eng params
                          else device_uniqueId dev @ ''-'' @ kind),
                       targetTier = ownerTier dev,
                       proxy_device = device_uniqueId dev, proxy_local = ref local,
                       proxy_kind = kind, proxy_mode = mode, proxy_params = params\<rparr>],
                  opens := opens f @ [ProxyChannel (length (proxyCalls f))]\<rparr>))
    \<and> (\<forall>e f'. getChannel eng dev kind mode params False f = (Inl e, f') \<longrightarrow>
          getOpenedChannel eng dev kind mode params f = (Inl e, f')
        \<and> proxyCalls f' = proxyCalls f \<and> opens f' = opens f)"
  proof
    assume other: "ownerTier dev \<noteq> ownTier eng \<and> ownerTier dev \<noteq> GLOBAL"
    obtain r f' where g: "getChannel eng dev kind mode params False f = (r, f')"
      by (cases "getChannel eng dev kind mode params False f") auto
    from fr[OF g] other g
    show "(\<forall>local f'. getChannel eng dev kind mode params False f = (Inr local, f') \<and> proxyManager f \<longrightarrow>
          getOpenedChannel eng dev kind mode params f
            = (Inr (ProxyChannel (length (proxyCalls f))),
               f'\<lparr>proxyCalls := proxyCalls f @
                     [\<lparr>targetChannelId =
                         (if mode = ''r''
                          then device_uniqueId dev @ ''-'' @ kind @ ''-'' @ makeString eng params
                          else device_uniqueId dev @ ''-'' @ kind),
                       targetTier = ownerTier dev,
                       proxy_device = device_uniqueId dev, proxy_local = ref local,
                       proxy_kind = kind, proxy_mode = mode, proxy_params = params\<rparr>],
                  opens := opens f @ [ProxyChannel (length (proxyCalls f))]\<rparr>))
    \<and> (\<forall>e f'. getChannel eng dev kind mode params False f = (Inl e, f') \<longrightarrow>
          getOpenedChannel eng dev kind mode params f = (Inl e, f')
        \<and> proxyCalls f' = proxyCalls f \<and> opens f' = opens f)"
      by (cases r) (simp_all add: getOpenedChannel_def openChannel_def getProxyChannel_def Let_def)
  qed
  from loc rem show ?thesis by (rule conjI)
qed

text \<open>
  The Proxy Manager is not called for every call on a device of another tier: on the
  phone, the server's \<open>lamp\<close> has no trigger \<open>volume\<close>, the local class lookup throws, and
  the call is rejected with no call of the Proxy Manager and nothing opened.
\<close>

theorem getOpenedChannel_no_proxy_when_lookup_fails:
  "ownerTier lamp \<noteq> ownTier phone_engine \<and> ownerTier lamp \<noteq> GLOBAL
   \<and> fst (getOpenedChannel phone_engine lamp ''volume'' ''r'' ''''
            ((new_factory :: (string, nat) channel_factory)\<lparr>proxyManager := True\<rparr>))
       = Inl (Error ''no such trigger'')
   \<and> proxyCalls (snd (getOpenedChannel phone_engine lamp ''volume'' ''r'' ''''
            ((new_factory :: (string, nat) channel_factory)\<lparr>proxyManager := True\<rparr>))) = []
   \<and> opens (snd (getOpenedChannel phone_engine lamp ''volume'' ''r'' ''''
            ((new_factory :: (string, nat) channel_factory)\<lparr>proxyManager := True\<rparr>))) = []"
  by (simp add: getOpenedChannel_def getProxyChannel_def openChannel_def example_defs)

theorem getOpenedChannel_placement_witness:
  "ownerTier lamp \<noteq> ownTier phone_engine \<and> ownerTier lamp \<noteq> GLOBAL
   \<and> fst (getOpenedChannel phone_engine lamp ''power'' ''r'' ''on''
            ((new_factory :: (string, nat) channel_factory)\<lparr>proxyManager := True\<rparr>))
       = Inr (ProxyChannel 0)
   \<and> map targetChannelId (proxyCalls (snd (getOpenedChannel phone_engine lamp ''power'' ''r'' ''on''
            ((new_factory :: (string, nat) channel_factory)\<lparr>proxyManager := True\<rparr>))))
       = [''lamp-power-on'']
   \<and> map targetTier (proxyCalls (snd (getOpenedChannel phone_engine lamp ''power'' ''r'' ''on''
            ((new_factory :: (string, nat) channel_factory)\<lparr>proxyManager := True\<rparr>))))
       = [SERVER]
   \<and> opens (snd (getOpenedChannel phone_engine lamp ''power'' ''r'' ''on''
            ((new_factory :: (string, nat) channel_factory)\<lparr>proxyManager := True\<rparr>)))
       = [ProxyChannel 0]
   \<and> ownerTier lamp = ownTier server_engine
   \<and> proxyCalls (snd (getOpenedChannel server_engine lamp ''toggle'' ''w'' ''''
            ((new_factory :: (string, nat) channel_factory)\<lparr>proxyManager := True\<rparr>))) = []"
proof -
  let ?F = "(new_factory :: (string, nat) channel_factory)\<lparr>proxyManager := True\<rparr>"
  let ?G = "getChannel phone_engine lamp ''power'' ''r'' ''on'' False ?F"
  let ?c = "\<lparr>ref = 0, channel_uniqueId = ''lamp-power'', filterString = None, state = Some 0\<rparr>"
  have other: "ownerTier lamp \<noteq> ownTier phone_engine \<and> ownerTier lamp \<noteq> GLOBAL"
    by (simp add: lamp_def phone_engine_def)
  have own: "ownerTier lamp = ownTier server_engine \<or> ownerTier lamp = GLOBAL"
    by (simp add: lamp_def server_engine_def)
  have "fst ?G = Inr ?c" by (simp add: example_defs)
  then have g: "?G = (Inr ?c, snd ?G) \<and> proxyManager ?F"
    by (simp add: prod_eq_iff new_factory_def)
  note remote =
    getOpenedChannel_placement[where f = ?F and eng = phone_engine and dev = lamp
      and kind = "''power''" and mode = "''r''" and params = "''on''",
      THEN conjunct2, rule_format, OF other, THEN conjunct1, rule_format, OF g]
  note loc =
    getOpenedChannel_placement[where f = ?F and eng = server_engine and dev = lamp
      and kind = "''toggle''" and mode = "''w''" and params = "''''",
      THEN conjunct1, rule_format, OF own, THEN conjunct1]
  have p: "proxyCalls ?F = []" "opens ?F = []" by (simp_all add: new_factory_def)
  have l: "ownerTier lamp = ownTier server_engine" by (simp add: lamp_def server_engine_def)
  show ?thesis
    unfolding remote loc p using other l
    by (simp add: lamp_def phone_engine_def)
qed

section \<open>Channel opener\<close>

lemma openOneChannel_valid:
  assumes "opener_mode opn = ''r'' \<or> opener_mode opn = ''q'' \<or> opener_mode opn = ''w''"
  shows "openOneChannel device opn =
     (Inr (Resolved ()),
      opn\<lparr>opener_set := opener_set opn @ obtained opn [device],
        opener_errors := opener_errors opn @ failures opn [device]\<rparr>)"
  using assms
  by (auto simp: openOneChannel_def requested_def addOne_def Let_def split: promise.splits)

lemma all_promise_resolved:
  "all_promise (replicate n (Resolved ())) = Resolved (replicate n ())"
  by (induction n) auto

lemma obtained_mode [simp]:
  "obtained (opn\<lparr>opener_set := s, opener_errors := e\<rparr>) devices = obtained opn devices"
  by (induction devices) (auto simp: requested_def split: promise.splits)

lemma failures_mode [simp]:
  "failures (opn\<lparr>opener_set := s, opener_errors := e\<rparr>) devices = failures opn devices"
  by (induction devices) (auto simp: requested_def split: promise.splits)

lemma openEach_valid:
  assumes "opener_mode opn = ''r'' \<or> opener_mode opn = ''q'' \<or> opener_mode opn = ''w''"
  shows "openEach devices opn =
     (Inr (replicate (length devices) (Resolved ())),
      opn\<lparr>opener_set := opener_set opn @ obtained opn devices,
        opener_errors := opener_errors opn @ failures opn devices\<rparr>)"
  using assms
proof (induction devices arbitrary: opn)
  case Nil
  then show ?case by simp
next
  case (Cons device devices)
  let ?o1 = "opn\<lparr>opener_set := opener_set opn @ obtained opn [device],
                opener_errors := opener_errors opn @ failures opn [device]\<rparr>"
  have one: "openOneChannel device opn = (Inr (Resolved ()), ?o1)"
    by (rule openOneChannel_valid[OF Cons.prems])
  have m: "opener_mode ?o1 = ''r'' \<or> opener_mode ?o1 = ''q'' \<or> opener_mode ?o1 = ''w''"
    using Cons.prems by simp
  show ?case
    unfolding openEach.simps one using Cons.IH[OF m]
    by (simp split: promise.splits)
qed

text \<open>
  The copy in \<open>lib/apps/channel_opener.js\<close>. With a valid mode, \<open>start\<close> on the devices
  of the view neither throws nor is rejected, whatever the devices' promises do: it
  resolves. The set then holds the
  channels of exactly the devices whose promise resolved (a device that fails adds no
  channel and does not stop the devices after it), and for every device that fails two
  lines are logged: one with the channel name, the device id and the error's message,
  and the error's stack.
\<close>

theorem start_tolerates_failures:
  assumes "opener_mode opn = ''r'' \<or> opener_mode opn = ''q'' \<or> opener_mode opn = ''w''"
  shows "start devices opn =
     (Inr (Resolved (replicate (length devices) ())),
      opn\<lparr>opener_set := opener_set opn @ obtained opn devices,
        opener_errors := opener_errors opn @ failures opn devices\<rparr>)"
  by (simp add: start_def openChannels_def openEach_valid[OF assms] all_promise_resolved)

theorem start_tolerates_failures_witness:
  "(opener_mode trigger_opener = ''r'' \<or> opener_mode trigger_opener = ''q''
      \<or> opener_mode trigger_opener = ''w'')
   \<and> requested trigger_opener (bad_device ''tv'') = Rejected (Error ''Channel is not supported'')
   \<and> fst (start [good_device ''lamp'', bad_device ''tv'', good_device ''fan''] trigger_opener)
       = Inr (Resolved [(), (), ()])
   \<and> map channel_uniqueId
        (opener_set (snd (start [good_device ''lamp'', bad_device ''tv'', good_device ''fan'']
                             trigger_opener)))
       = [''lamp-power'', ''fan-power'']
   \<and> opener_errors (snd (start [good_device ''lamp'', bad_device ''tv'', good_device ''fan'']
                             trigger_opener))
       = [ErrorText ''Failed to get channel power in device tv: Channel is not supported'',
          ErrorStack (Error ''Channel is not supported'')]"
proof -
  have m: "opener_mode trigger_opener = ''r'' \<or> opener_mode trigger_opener = ''q''
             \<or> opener_mode trigger_opener = ''w''"
    by (simp add: trigger_opener_def)
  have r: "requested trigger_opener (bad_device ''tv'') = Rejected (Error ''Channel is not supported'')"
    by (simp add: requested_def trigger_opener_def bad_device_def)
  note th = start_tolerates_failures[OF m,
      of "[good_device ''lamp'', bad_device ''tv'', good_device ''fan'']"]
  show ?thesis
    unfolding th using m r
    by (simp add: requested_def trigger_opener_def bad_device_def good_device_def message_def)
qed

text \<open>
  The copy in \<open>src/unnamed/part_001\<close>: \<open>start\<close> is rejected as soon as one device of the
  view fails, since nothing catches the rejection between \<open>addOne\<close> and \<open>Q.all\<close>.
\<close>

lemma all_promise_rejected:
  "Rejected e \<in> set ps \<Longrightarrow> \<exists>e'. all_promise ps = Rejected e'"
proof (induction ps)
  case Nil
  then show ?case by simp
next
  case (Cons p ps)
  show ?case
  proof (cases p)
    case (Resolved v)
    with Cons obtain e' where "all_promise ps = Rejected e'" by auto
    with Resolved show ?thesis by simp
  next
    case (Rejected e0)
    then show ?thesis by simp
  qed
qed

lemma obtained_set [simp]:
  "obtained (opn\<lparr>opener_set := s\<rparr>) devices = obtained opn devices"
  by (induction devices) (auto simp: requested_def split: promise.splits)

lemma requested_set [simp]:
  "requested (opn\<lparr>opener_set := s\<rparr>) d = requested opn d"
  by (simp add: requested_def)

lemma openOneChannel_uncaught_valid:
  assumes "opener_mode opn = ''r'' \<or> opener_mode opn = ''q'' \<or> opener_mode opn = ''w''"
  shows "openOneChannel_uncaught device opn =
     (Inr (case requested opn device of Resolved ch \<Rightarrow> Resolved () | Rejected e \<Rightarrow> Rejected e),
      opn\<lparr>opener_set := opener_set opn @ obtained opn [device]\<rparr>)"
  using assms
  by (auto simp: openOneChannel_uncaught_def requested_def addOne_def Let_def
           split: promise.splits)

lemma openEach_uncaught_valid:
  assumes "opener_mode opn = ''r'' \<or> opener_mode opn = ''q'' \<or> opener_mode opn = ''w''"
  shows "openEach_uncaught devices opn =
           (Inr (map (\<lambda>d. case requested opn d of Resolved ch \<Rightarrow> Resolved ()
                                                 | Rejected e \<Rightarrow> Rejected e) devices),
            opn\<lparr>opener_set := opener_set opn @ obtained opn devices\<rparr>)"
  using assms
proof (induction devices arbitrary: opn)
  case Nil
  then show ?case by simp
next
  case (Cons device devices)
  let ?o1 = "opn\<lparr>opener_set := opener_set opn @ obtained opn [device]\<rparr>"
  have m: "opener_mode ?o1 = ''r'' \<or> opener_mode ?o1 = ''q'' \<or> opener_mode ?o1 = ''w''"
    using Cons.prems by simp
  show ?case
    unfolding openEach_uncaught.simps openOneChannel_uncaught_valid[OF Cons.prems]
    using Cons.IH[OF m]
    by (simp split: promise.splits)
qed

theorem start_uncaught_rejects:
  assumes "opener_mode opn = ''r'' \<or> opener_mode opn = ''q'' \<or> opener_mode opn = ''w''"
    and "device \<in> set devices" and "requested opn device = Rejected e"
  shows "\<exists>e'. fst (start_uncaught devices opn) = Inr (Rejected e')"
proof -
  let ?ps = "map (\<lambda>d. case requested opn d of Resolved ch \<Rightarrow> Resolved ()
                                            | Rejected e \<Rightarrow> Rejected e) devices"
  note each = openEach_uncaught_valid[OF assms(1), of devices]
  have "Rejected e \<in> set ?ps"
    using assms(2,3) by (force simp: image_iff)
  then obtain e' where "all_promise ?ps = Rejected e'"
    using all_promise_rejected by blast
  with each show ?thesis by (simp add: start_uncaught_def)
qed

theorem start_uncaught_rejects_witness:
  "(opener_mode trigger_opener = ''r'' \<or> opener_mode trigger_opener = ''q''
      \<or> opener_mode trigger_opener = ''w'')
   \<and> bad_device ''tv'' \<in> set [good_device ''lamp'', bad_device ''tv'', good_device ''fan'']
   \<and> requested trigger_opener (bad_device ''tv'') = Rejected (Error ''Channel is not supported'')
   \<and> (\<exists>e'. fst (start_uncaught [good_device ''lamp'', bad_device ''tv'', good_device ''fan'']
                   trigger_opener) = Inr (Rejected e'))"
proof -
  have m: "opener_mode trigger_opener = ''r'' \<or> opener_mode trigger_opener = ''q''
             \<or> opener_mode trigger_opener = ''w''"
    by (simp add: trigger_opener_def)
  have i: "bad_device ''tv'' \<in> set [good_device ''lamp'', bad_device ''tv'', good_device ''fan'']"
    by simp
  have r: "requested trigger_opener (bad_device ''tv'') = Rejected (Error ''Channel is not supported'')"
    by (simp add: requested_def trigger_opener_def bad_device_def)
  from m i r start_uncaught_rejects[OF m i r] show ?thesis by (intro conjI)
qed

text \<open>
  C9. The copy of the opener in \<open>src/unnamed/part_001\<close> at a view of three devices whose
  second device fails to give the trigger: \<open>start\<close> is rejected with that device's error
  and no line is logged. The channels of the two other devices are in the set all the
  same. When the same device joins the view later, \<open>_onDeviceAdded\<close> of that copy does
  catch the failure: it logs the line with the channel name, the device id and the
  message, and the stack, and resolves; so does \<open>start\<close> of the copy in
  \<open>lib/apps/channel_opener.js\<close>, which resolves with the two channels in the set.
\<close>

theorem start_uncaught_rejected_by_failing_device:
  "requested trigger_opener (bad_device ''tv'') = Rejected (Error ''Channel is not supported'')
   \<and> fst (start_uncaught [good_device ''lamp'', bad_device ''tv'', good_device ''fan'']
             trigger_opener)
       = Inr (Rejected (Error ''Channel is not supported''))
   \<and> opener_errors (snd (start_uncaught [good_device ''lamp'', bad_device ''tv'', good_device ''fan'']
                             trigger_opener))
       = []
   \<and> map channel_uniqueId
        (opener_set (snd (start_uncaught [good_device ''lamp'', bad_device ''tv'', good_device ''fan'']
                             trigger_opener)))
       = [''lamp-power'', ''fan-power'']
   \<and> onDeviceAdded_uncaught (bad_device ''tv'') trigger_opener
       = (Inr (Resolved ()),
          trigger_opener\<lparr>opener_errors :=
            [ErrorText ''Failed to get channel power in device tv: Channel is not supported'',
             ErrorStack (Error ''Channel is not supported'')]\<rparr>)
   \<and> fst (start [good_device ''lamp'', bad_device ''tv'', good_device ''fan''] trigger_opener)
       = Inr (Resolved [(), (), ()])
   \<and> opener_errors (snd (start [good_device ''lamp'', bad_device ''tv'', good_device ''fan'']
                             trigger_opener))
       = [ErrorText ''Failed to get channel power in device tv: Channel is not supported'',
          ErrorStack (Error ''Channel is not supported'')]"
  by (simp add: start_uncaught_def openOneChannel_uncaught_def onDeviceAdded_uncaught_def
        start_def openChannels_def openOneChannel_def addOne_def requested_def
        trigger_opener_def bad_device_def good_device_def message_def Let_def)

section \<open>Tier connections: the client\<close>

lemma attempts_append [simp]: "attempts (xs @ ys) = attempts xs + attempts ys"
  by (simp add: attempts_def)

lemma attempts_simps [simp]:
  "attempts [] = 0"
  "attempts (NewWebSocket s # es) = Suc (attempts es)"
  "attempts (Log l # es) = attempts es"
  "attempts (LogAttempt n # es) = attempts es"
  "attempts (SendText s j # es) = attempts es"
  "attempts (SendObject s m # es) = attempts es"
  "attempts (CloseSocket s # es) = attempts es"
  "attempts (Pong s # es) = attempts es"
  "attempts (EmitFailed b # es) = attempts es"
  "attempts (EmitMessage j # es) = attempts es"
  "attempts (Throws x # es) = attempts es"
  by (simp_all add: attempts_def)

lemma attempts_SendObject [simp]: "attempts (map (\<lambda>m. SendObject s (f m)) ms) = 0"
  by (induction ms) simp_all












lemma client_open_effects:
  assumes "int (created c) + retryAttempts c = 3"
  shows "effects (client_open c)
           = effects c @ [LogAttempt (int (created c) + 1), NewWebSocket (created c)]"
  using assms by (simp add: client_open_def emit_def Let_def)



section \<open>Tier connections: the server\<close>

text \<open>What the sending functions leave alone: everything but buffers and effects.\<close>

lemma sendTo_frame:
  "sendTo m to st = (r, st') \<Longrightarrow>
   sockets st' = sockets st \<and> connections st' = connections st
   \<and> configuredToken st' = configuredToken st \<and> allocated st' = allocated st
   \<and> intervals st' = intervals st \<and> intervalsSet st' = intervalsSet st
   \<and> (\<forall>x. dataOk (records st' x) = dataOk (records st x)
          \<and> socket (records st' x) = socket (records st x)
          \<and> identity (records st' x) = identity (records st x)
          \<and> pingTimeout (records st' x) = pingTimeout (records st x))"
  by (auto simp: sendTo_def say_def modify_def split: table_entry.splits option.splits if_splits)

lemma sendToEach_frame:
  "sendToEach m idents st = (r, st') \<Longrightarrow>
   sockets st' = sockets st \<and> connections st' = connections st
   \<and> configuredToken st' = configuredToken st \<and> allocated st' = allocated st
   \<and> intervals st' = intervals st \<and> intervalsSet st' = intervalsSet st
   \<and> (\<forall>x. dataOk (records st' x) = dataOk (records st x)
          \<and> socket (records st' x) = socket (records st x)
          \<and> identity (records st' x) = identity (records st x)
          \<and> pingTimeout (records st' x) = pingTimeout (records st x))"
proof (induction idents arbitrary: st)
  case Nil
  then show ?case by simp
next
  case (Cons ident idents)
  obtain r1 st1 where one: "sendTo m ident st = (r1, st1)" by (cases "sendTo m ident st") auto
  note f1 = sendTo_frame[OF one]
  show ?case
  proof (cases r1)
    case None
    with Cons.prems one have "sendToEach m idents st1 = (r, st')" by simp
    from Cons.IH[OF this] f1 show ?thesis by simp
  next
    case (Some e)
    with Cons.prems one have "st' = st1" by simp
    with f1 show ?thesis by simp
  qed
qed

lemma server_send_frame:
  "server_send m to st = (r, st') \<Longrightarrow>
   sockets st' = sockets st \<and> connections st' = connections st
   \<and> configuredToken st' = configuredToken st \<and> allocated st' = allocated st
   \<and> intervals st' = intervals st \<and> intervalsSet st' = intervalsSet st
   \<and> (\<forall>x. dataOk (records st' x) = dataOk (records st x)
          \<and> socket (records st' x) = socket (records st x)
          \<and> identity (records st' x) = identity (records st x)
          \<and> pingTimeout (records st' x) = pingTimeout (records st x))"
  unfolding server_send_def
  by (cases to) (auto dest: sendTo_frame sendToEach_frame)

lemma sendMany_frame:
  "sendMany buffer to st = (r, st') \<Longrightarrow>
   sockets st' = sockets st \<and> connections st' = connections st
   \<and> configuredToken st' = configuredToken st \<and> allocated st' = allocated st
   \<and> intervals st' = intervals st \<and> intervalsSet st' = intervalsSet st
   \<and> (\<forall>x. dataOk (records st' x) = dataOk (records st x)
          \<and> socket (records st' x) = socket (records st x)
          \<and> identity (records st' x) = identity (records st x)
          \<and> pingTimeout (records st' x) = pingTimeout (records st x))"
proof (induction buffer arbitrary: st)
  case Nil
  then show ?case by simp
next
  case (Cons m buffer)
  obtain r1 st1 where one: "server_send m to st = (r1, st1)" by (cases "server_send m to st") auto
  note f1 = server_send_frame[OF one]
  show ?case
  proof (cases r1)
    case None
    with Cons.prems one have "sendMany buffer to st1 = (r, st')" by simp
    from Cons.IH[OF this] f1 show ?thesis by simp
  next
    case (Some e)
    with Cons.prems one have "st' = st1" by simp
    with f1 show ?thesis by simp
  qed
qed

text \<open>The sending functions emit no \<open>message\<close> event.\<close>

lemma sendTo_quiet:
  "sendTo m to st = (r, st') \<Longrightarrow> ServerMessage j i \<in> set (out st') \<Longrightarrow> ServerMessage j i \<in> set (out st)"
  by (auto simp: sendTo_def say_def modify_def split: table_entry.splits option.splits if_splits)

lemma sendToEach_quiet:
  "sendToEach m idents st = (r, st') \<Longrightarrow> ServerMessage j i \<in> set (out st')
   \<Longrightarrow> ServerMessage j i \<in> set (out st)"
proof (induction idents arbitrary: st)
  case Nil
  then show ?case by simp
next
  case (Cons ident idents)
  obtain r1 st1 where one: "sendTo m ident st = (r1, st1)" by (cases "sendTo m ident st") auto
  show ?case
  proof (cases r1)
    case None
    with Cons.prems one have "sendToEach m idents st1 = (r, st')" by simp
    from Cons.IH[OF this Cons.prems(2)] sendTo_quiet[OF one] show ?thesis by blast
  next
    case (Some e)
    with Cons.prems one have "st' = st1" by simp
    with Cons.prems(2) sendTo_quiet[OF one] show ?thesis by blast
  qed
qed

lemma server_send_quiet:
  "server_send m to st = (r, st') \<Longrightarrow> ServerMessage j i \<in> set (out st')
   \<Longrightarrow> ServerMessage j i \<in> set (out st)"
  unfolding server_send_def
  by (cases to) (auto dest: sendTo_quiet sendToEach_quiet)

lemma sendMany_quiet:
  "sendMany buffer to st = (r, st') \<Longrightarrow> ServerMessage j i \<in> set (out st')
   \<Longrightarrow> ServerMessage j i \<in> set (out st)"
proof (induction buffer arbitrary: st)
  case Nil
  then show ?case by simp
next
  case (Cons m buffer)
  obtain r1 st1 where one: "server_send m to st = (r1, st1)" by (cases "server_send m to st") auto
  show ?case
  proof (cases r1)
    case None
    with Cons.prems one have "sendMany buffer to st1 = (r, st')" by simp
    from Cons.IH[OF this Cons.prems(2)] server_send_quiet[OF one] show ?thesis by blast
  next
    case (Some e)
    with Cons.prems one have "st' = st1" by simp
    with Cons.prems(2) server_send_quiet[OF one] show ?thesis by blast
  qed
qed

lemma promote_frame:
  "sockets (promote s ident st) = sockets st
   \<and> configuredToken (promote s ident st) = configuredToken st
   \<and> allocated (promote s ident st) = allocated st
   \<and> (\<forall>x. dataOk (records (promote s ident st) x) = (x = s \<or> dataOk (records st x)))
   \<and> (\<forall>j i. ServerMessage j i \<in> set (out (promote s ident st)) \<longrightarrow> ServerMessage j i \<in> set (out st))"
  by (auto simp: promote_def startPing_def register_def supersede_def clearPing_def say_def
        modify_def Let_def split: option.splits interval.splits)

lemma authenticated_frame:
  "sockets (authenticated s ident st) = sockets st
   \<and> configuredToken (authenticated s ident st) = configuredToken st
   \<and> allocated (authenticated s ident st) = allocated st
   \<and> (\<forall>x. dataOk (records (authenticated s ident st) x) = (x = s \<or> dataOk (records st x)))
   \<and> (\<forall>j i. ServerMessage j i \<in> set (out (authenticated s ident st))
          \<longrightarrow> ServerMessage j i \<in> set (out st))"
proof -
  let ?p = "promote s ident st"
  obtain r st' where f: "flushOld (map_of (connections st) ident) ident ?p = (r, st')"
    by (cases "flushOld (map_of (connections st) ident) ident ?p") auto
  have fr: "sockets st' = sockets ?p \<and> configuredToken st' = configuredToken ?p
          \<and> allocated st' = allocated ?p
          \<and> (\<forall>x. dataOk (records st' x) = dataOk (records ?p x))"
    using f by (auto simp: flushOld_def split: option.splits dest: sendMany_frame)
  have q: "ServerMessage j i \<in> set (out st') \<Longrightarrow> ServerMessage j i \<in> set (out ?p)" for j i
    using f by (auto simp: flushOld_def split: option.splits dest: sendMany_quiet)
  have a: "authenticated s ident st
             = (case r of Some e \<Rightarrow> say [ServerThrows e] st' | None \<Rightarrow> say [EmitConnected ident] st')"
    using f by (simp add: authenticated_def split: option.splits)
  show ?thesis
    unfolding a using fr q promote_frame[of s ident st]
    by (cases r) (auto simp: say_def)
qed

lemma authOk_authFrame:
  assumes "property msg ''control'' = Inr control"
    and "authOk st control (case property msg ''identity'' of Inl e \<Rightarrow> None | Inr v \<Rightarrow> v)
           (case property msg ''token'' of Inl e \<Rightarrow> None | Inr v \<Rightarrow> v)"
  shows "authFrame st (Parsed msg)"
  using assms
  by (cases msg; cases "configuredToken st") (auto simp: property_def authOk_def authFrame_def)

lemma onMessage_dataOk:
  assumes "dataOk (records (onMessage s data st) x)"
  shows "dataOk (records st x) \<or> (x = s \<and> \<not> dataOk (records st s) \<and> authFrame st data)"
proof (cases data)
  case Unparsable
  with assms show ?thesis by (simp add: onMessage_def say_def)
next
  case (Parsed msg)
  show ?thesis
  proof (cases "property msg ''control''")
    case (Inl e)
    with assms Parsed show ?thesis by (simp add: onMessage_def say_def)
  next
    case (Inr control)
    let ?ident = "case property msg ''identity'' of Inl e \<Rightarrow> None | Inr v \<Rightarrow> v"
    let ?token = "case property msg ''token'' of Inl e \<Rightarrow> None | Inr v \<Rightarrow> v"
    show ?thesis
    proof (cases "dataOk (records st s)")
      case True
      with assms Parsed Inr show ?thesis
        by (auto simp: onMessage_def say_def Let_def split: if_splits)
    next
      case False
      show ?thesis
      proof (cases "control = Some (JString ''set-auth-token'')")
        case True
        with assms Parsed Inr False show ?thesis
          by (auto simp: onMessage_def say_def modify_def setAuthToken_def Let_def
                   split: if_splits option.splits prod.splits bool.splits)
      next
        case notset: False
        show ?thesis
        proof (cases "authOk st control ?ident ?token")
          case False
          with assms Parsed Inr notset \<open>\<not> dataOk (records st s)\<close> show ?thesis
            by (simp add: onMessage_def say_def Let_def)
        next
          case True
          have af: "authFrame st data"
            unfolding Parsed by (rule authOk_authFrame[OF Inr True])
          from True obtain name where n: "?ident = Some (JString name)"
            by (auto simp: authOk_def isString_def split: option.splits json.splits)
          have "onMessage s data st = authenticated s name st"
            using Parsed Inr notset True n \<open>\<not> dataOk (records st s)\<close>
            by (simp add: onMessage_def Let_def)
          with assms authenticated_frame[of s name st] af \<open>\<not> dataOk (records st s)\<close>
          show ?thesis by auto
        qed
      qed
    qed
  qed
qed

lemma onMessage_sockets: "sockets (onMessage s data st) = sockets st"
proof -
  have a: "sockets (authenticated s name st) = sockets st" for name
    using authenticated_frame[of s name st] by simp
  show ?thesis
    by (auto simp: onMessage_def say_def modify_def setAuthToken_def Let_def a
             split: wire.splits sum.splits if_splits option.splits prod.splits bool.splits
                    json.splits)
qed

lemma onMessage_emits:
  assumes "ServerMessage j i \<in> set (out (onMessage s data st))"
  shows "ServerMessage j i \<in> set (out st)
       \<or> (dataOk (records st s) \<and> findConnection s st \<noteq> None \<and> i = identity (records st s)
          \<and> (\<exists>kvs. data = Parsed (JObject kvs)
                \<and> map_of kvs ''control'' = Some (JString ''data'')
                \<and> j = JObject (AList.delete ''control'' kvs)))"
proof (cases data)
  case Unparsable
  with assms show ?thesis by (simp add: onMessage_def say_def)
next
  case (Parsed msg)
  show ?thesis
  proof (cases "property msg ''control''")
    case (Inl e)
    with assms Parsed show ?thesis by (simp add: onMessage_def say_def)
  next
    case (Inr control)
    show ?thesis
    proof (cases "dataOk (records st s)")
      case True
      with assms Parsed Inr show ?thesis
        by (cases msg)
           (auto simp: onMessage_def say_def Let_def property_def deleteControl_def
                 split: if_splits)
    next
      case False
      have a: "ServerMessage j i \<in> set (out (authenticated s name st))
               \<Longrightarrow> ServerMessage j i \<in> set (out st)" for name
        using authenticated_frame[of s name st] by blast
      from assms Parsed Inr False show ?thesis
        by (auto simp: onMessage_def say_def modify_def setAuthToken_def Let_def
                 split: if_splits option.splits prod.splits bool.splits json.splits
                 dest: a)
    qed
  qed
qed

lemma clearPing_frame [simp]:
  "sockets (clearPing p st) = sockets st"
  "records (clearPing p st) = records st"
  "connections (clearPing p st) = connections st"
  "ServerMessage j i \<in> set (out (clearPing p st)) \<longleftrightarrow> ServerMessage j i \<in> set (out st)"
  by (simp_all add: clearPing_def say_def split: interval.splits)

lemma closeRecord_frame:
  "sockets (closeRecord r st) = sockets st
   \<and> (\<forall>x. dataOk (records (closeRecord r st) x) = dataOk (records st x))
   \<and> (\<forall>j i. ServerMessage j i \<in> set (out (closeRecord r st)) \<longrightarrow> ServerMessage j i \<in> set (out st))"
  by (auto simp: closeRecord_def say_def modify_def split: option.splits)

lemma fold_closeRecord_frame:
  "sockets (fold closeRecord rs st) = sockets st
   \<and> (\<forall>x. dataOk (records (fold closeRecord rs st) x) = dataOk (records st x))
   \<and> (\<forall>j i. ServerMessage j i \<in> set (out (fold closeRecord rs st))
          \<longrightarrow> ServerMessage j i \<in> set (out st))"
proof (induction rs arbitrary: st)
  case Nil
  then show ?case by simp
next
  case (Cons r rs)
  from Cons.IH[of "closeRecord r st"] closeRecord_frame[of r st] show ?case by simp
qed

lemma uncaught_send_frame:
  "sockets (uncaught (server_send m to st)) = sockets st
   \<and> (\<forall>x. dataOk (records (uncaught (server_send m to st)) x) = dataOk (records st x))
   \<and> (\<forall>j i. ServerMessage j i \<in> set (out (uncaught (server_send m to st)))
          \<longrightarrow> ServerMessage j i \<in> set (out st))"
proof -
  obtain r st' where s: "server_send m to st = (r, st')" by (cases "server_send m to st") auto
  from server_send_frame[OF s] server_send_quiet[OF s] show ?thesis
    unfolding s by (cases r) (auto simp: uncaught_def say_def)
qed

lemma uncaught_sendMany_frame:
  "sockets (uncaught (sendMany buffer to st)) = sockets st
   \<and> (\<forall>x. dataOk (records (uncaught (sendMany buffer to st)) x) = dataOk (records st x))
   \<and> (\<forall>j i. ServerMessage j i \<in> set (out (uncaught (sendMany buffer to st)))
          \<longrightarrow> ServerMessage j i \<in> set (out st))"
proof -
  obtain r st' where s: "sendMany buffer to st = (r, st')" by (cases "sendMany buffer to st") auto
  from sendMany_frame[OF s] sendMany_quiet[OF s] show ?thesis
    unfolding s by (cases r) (auto simp: uncaught_def say_def)
qed

text \<open>One event: which records are authenticated afterwards, and what is delivered.\<close>

lemma handle_dataOk:
  assumes "x \<in> set (sockets (handle e st))" and "dataOk (records (handle e st) x)"
  shows "(x \<in> set (sockets st) \<and> dataOk (records st x))
       \<or> (\<exists>data. e = Message x data \<and> x \<in> set (sockets st) \<and> \<not> dataOk (records st x)
             \<and> authFrame st data)"
proof (cases e)
  case Connection
  with assms show ?thesis
    by (auto simp: handleConnection_def say_def newRecord_def split: if_splits)
next
  case (Message s data)
  with assms onMessage_dataOk[of s data st x] onMessage_sockets[of s data st]
  show ?thesis by (auto split: if_splits)
next
  case (Closed s)
  with assms show ?thesis
    by (auto simp: onClose_def say_def modify_def Let_def split: if_splits option.splits)
next
  case (Pinged s)
  with assms show ?thesis by (auto simp: say_def split: if_splits)
next
  case (IntervalFires t)
  with assms show ?thesis by (auto simp: onInterval_def say_def split: option.splits)
next
  case (CloseTimesOut r)
  with assms show ?thesis by (auto simp: closeTimeout_def say_def split: option.splits)
next
  case (CallServerSend m to)
  with assms uncaught_send_frame[of m to st] show ?thesis by simp
next
  case (CallSendMany buffer to)
  with assms uncaught_sendMany_frame[of buffer to st] show ?thesis by simp
next
  case (CallCloseOne ident)
  with assms closeRecord_frame show ?thesis
    by (auto simp: closeOne_def split: table_entry.splits)
next
  case CallServerClose
  with assms fold_closeRecord_frame[of "map snd (connections st)" st] show ?thesis
    by (simp add: server_close_def)
qed

lemma handle_emits:
  assumes "ServerMessage j i \<in> set (out (handle e st))" and "out st = []"
  shows "\<exists>s kvs. e = Message s (Parsed (JObject kvs)) \<and> s \<in> set (sockets st)
           \<and> dataOk (records st s) \<and> findConnection s st \<noteq> None
           \<and> i = identity (records st s)
           \<and> map_of kvs ''control'' = Some (JString ''data'')
           \<and> j = JObject (AList.delete ''control'' kvs)"
proof (cases e)
  case Connection
  with assms show ?thesis by (auto simp: handleConnection_def say_def)
next
  case (Message s data)
  with assms onMessage_emits[of j i s data st] show ?thesis by (auto split: if_splits)
next
  case (Closed s)
  with assms show ?thesis
    by (auto simp: onClose_def say_def modify_def Let_def split: if_splits option.splits)
next
  case (Pinged s)
  with assms show ?thesis by (auto simp: say_def split: if_splits)
next
  case (IntervalFires t)
  with assms show ?thesis by (auto simp: onInterval_def say_def split: option.splits)
next
  case (CloseTimesOut r)
  with assms show ?thesis by (auto simp: closeTimeout_def say_def split: option.splits)
next
  case (CallServerSend m to)
  with assms uncaught_send_frame[of m to st] show ?thesis by auto
next
  case (CallSendMany buffer to)
  with assms uncaught_sendMany_frame[of buffer to st] show ?thesis by auto
next
  case (CallCloseOne ident)
  have "ServerMessage j i \<notin> set (out (closeRecord r st))" for r
    using closeRecord_frame[of r st] assms(2) by auto
  with assms CallCloseOne show ?thesis
    by (auto simp: closeOne_def split: table_entry.splits)
next
  case CallServerClose
  with assms fold_closeRecord_frame[of "map snd (connections st)" st] show ?thesis
    by (auto simp: server_close_def)
qed

lemma server_run_append: "server_run (evs @ [e]) st = server_step e (server_run evs st)"
  by (induction evs arbitrary: st) simp_all

lemma authenticatedBy_append:
  "authenticatedBy s (evs @ [e]) st =
     (authenticatedBy s evs st
      \<or> (case e of
            Message s' data \<Rightarrow>
              s' = s \<and> s \<in> set (sockets (server_run evs st))
              \<and> \<not> dataOk (records (server_run evs st) s) \<and> authFrame (server_run evs st) data
          | _ \<Rightarrow> False))"
proof (induction evs arbitrary: st)
  case Nil
  show ?case by (cases e) simp_all
next
  case (Cons a evs)
  show ?case unfolding append_Cons authenticatedBy.simps server_run.simps Cons.IH by blast
qed

lemma server_step_dataOk:
  assumes "x \<in> set (sockets (server_step e st))" and "dataOk (records (server_step e st) x)"
  shows "(x \<in> set (sockets st) \<and> dataOk (records st x))
       \<or> (\<exists>data. e = Message x data \<and> x \<in> set (sockets st) \<and> \<not> dataOk (records st x)
             \<and> authFrame st data)"
proof -
  have a: "authFrame (st\<lparr>out := []\<rparr>) data = authFrame st data" for data
    by (simp add: authFrame_def split: wire.splits json.splits)
  from handle_dataOk[of x e "st\<lparr>out := []\<rparr>"] assms show ?thesis
    by (simp add: server_step_def a)
qed

lemma expect_sockets: "sockets (expect idents st) = sockets st"
  by (induction idents arbitrary: st) simp_all

lemma new_server_sockets: "sockets (new_server token text expected) = []"
  by (simp add: new_server_def expect_sockets)

lemma server_run_dataOk:
  assumes "x \<in> set (sockets (server_run evs st))" and "dataOk (records (server_run evs st) x)"
  shows "(x \<in> set (sockets st) \<and> dataOk (records st x)) \<or> authenticatedBy x evs st"
  using assms
proof (induction evs rule: rev_induct)
  case Nil
  then show ?case by simp
next
  case (snoc e evs)
  let ?st = "server_run evs st"
  from snoc.prems have p: "x \<in> set (sockets (server_step e ?st))"
    "dataOk (records (server_step e ?st) x)"
    by (simp_all add: server_run_append)
  from server_step_dataOk[OF p] show ?case
  proof
    assume "x \<in> set (sockets ?st) \<and> dataOk (records ?st x)"
    with snoc.IH show ?thesis by (auto simp: authenticatedBy_append)
  next
    assume "\<exists>data. e = Message x data \<and> x \<in> set (sockets ?st) \<and> \<not> dataOk (records ?st x)
              \<and> authFrame ?st data"
    then show ?thesis by (auto simp: authenticatedBy_append)
  qed
qed

text \<open>
  C2. On a server made by the constructor, after any events whatsoever (new sockets,
  frames, closed sockets, timers, calls of \<open>send\<close>, \<open>sendMany\<close>, \<open>closeOne\<close> and \<open>close\<close>), a
  \<open>message\<close> event is emitted only by the handling of a frame that arrives on an
  accepted socket \<open>s\<close>, parses to an object with control \<open>data\<close> and is delivered with
  the control removed; and then, among the earlier events, there is a frame on that same
  socket \<open>s\<close> that the \<open>auth\<close> branch accepted: control \<open>auth\<close>, a string identity, and a
  token equal to the token configured at that moment.
\<close>

theorem auth_gate:
  assumes "ServerMessage j i
             \<in> set (out (server_step e (server_run evs (new_server token text expected))))"
  shows "\<exists>s kvs. e = Message s (Parsed (JObject kvs))
           \<and> map_of kvs ''control'' = Some (JString ''data'')
           \<and> j = JObject (AList.delete ''control'' kvs)
           \<and> authenticatedBy s evs (new_server token text expected)"
proof -
  let ?st = "server_run evs (new_server token text expected)"
  from assms have "ServerMessage j i \<in> set (out (handle e (?st\<lparr>out := []\<rparr>)))"
    by (simp add: server_step_def)
  from handle_emits[OF this] obtain s kvs where
    e: "e = Message s (Parsed (JObject kvs))" and s: "s \<in> set (sockets ?st)"
    and d: "dataOk (records ?st s)" and c: "map_of kvs ''control'' = Some (JString ''data'')"
    and j: "j = JObject (AList.delete ''control'' kvs)"
    by auto
  from server_run_dataOk[OF s d] have "authenticatedBy s evs (new_server token text expected)"
    by (simp add: new_server_sockets)
  with e c j show ?thesis by blast
qed

lemmas server_defs =
  new_server_def server_step_def handleConnection_def onMessage_def onClose_def
  authenticated_def promote_def flushOld_def startPing_def register_def supersede_def
  clearPing_def sendTo_def connectionOf_def inheritedNames_def server_send_def uncaught_def
  say_def modify_def
  newRecord_def expectedRecord_def property_def authOk_def isString_def truthy_def
  setAuthToken_def findConnection_def deleteControl_def withControl_def authFrame_def
  AList.update.simps AList.delete_eq Let_def

theorem auth_gate_witness:
  "ServerMessage (JObject [(''n'', JNumber 7)]) (Some ''phone'')
     \<in> set (out (server_step (Message 1 (Parsed (JObject [(''control'', JString ''data''),
                                                            (''n'', JNumber 7)])))
                   (server_run
                      [Connection,
                       Message 1 (Parsed (JObject [(''control'', JString ''auth''),
                                                   (''identity'', JString ''phone''),
                                                   (''token'', JString ''secret'')]))]
                      (new_server (Some ''secret'') (\<lambda>v. '''') [''phone'']))))
   \<and> authenticatedBy 1
        [Connection,
         Message 1 (Parsed (JObject [(''control'', JString ''auth''),
                                     (''identity'', JString ''phone''),
                                     (''token'', JString ''secret'')]))]
        (new_server (Some ''secret'') (\<lambda>v. '''') [''phone''])
   \<and> out (server_step (Message 1 (Parsed (JObject [(''control'', JString ''data''),
                                                   (''n'', JNumber 7)])))
          (server_run [Connection] (new_server (Some ''secret'') (\<lambda>v. '''') [''phone''])))
       = [ServerLog ''Invalid authentication message'', Terminate 1]"
proof -
  let ?S = "new_server (Some ''secret'') (\<lambda>v. '''') [''phone'']"
  let ?auth = "Message 1 (Parsed (JObject [(''control'', JString ''auth''),
                                           (''identity'', JString ''phone''),
                                           (''token'', JString ''secret'')]))"
  let ?data = "Message 1 (Parsed (JObject [(''control'', JString ''data''), (''n'', JNumber 7)]))"
  have p: "ServerMessage (JObject [(''n'', JNumber 7)]) (Some ''phone'')
             \<in> set (out (server_step ?data (server_run [Connection, ?auth] ?S)))"
    by (simp add: server_defs)
  from auth_gate[OF p] obtain s kvs where
    "?data = Message s (Parsed (JObject kvs))" and a: "authenticatedBy s [Connection, ?auth] ?S"
    by blast
  then have "s = 1" by simp
  with a have a1: "authenticatedBy 1 [Connection, ?auth] ?S" by simp
  have n: "out (server_step ?data (server_run [Connection] ?S))
             = [ServerLog ''Invalid authentication message'', Terminate 1]"
    by (simp add: server_defs)
  from p a1 n show ?thesis by (intro conjI)
qed
lemma sendTo_known:
  "map_of (connections st) to \<noteq> None \<Longrightarrow> \<exists>st'. sendTo m to st = (None, st')"
  by (auto simp: sendTo_def connectionOf_def split: option.splits)

lemma sendToEach_known:
  "set idents \<subseteq> fst ` set (connections st) \<Longrightarrow> \<exists>st'. sendToEach m idents st = (None, st')"
proof (induction idents arbitrary: st)
  case Nil
  then show ?case by simp
next
  case (Cons ident idents)
  from Cons.prems have "map_of (connections st) ident \<noteq> None"
    by (simp add: map_of_eq_None_iff)
  from sendTo_known[OF this] obtain st1 where one: "sendTo m ident st = (None, st1)" by blast
  from sendTo_frame[OF one] Cons.prems have "set idents \<subseteq> fst ` set (connections st1)" by simp
  from Cons.IH[OF this] one show ?case by simp
qed

text \<open>
  \<open>send(msg, to)\<close> with an identity \<open>to\<close> that neither the table nor \<open>Object.prototype\<close>
  holds throws the error \<open>Invalid destination for server message\<close> and leaves the
  server as it was: no record, buffer or effect changes. With an identity that only
  \<open>Object.prototype\<close> holds it throws a \<open>TypeError\<close> instead, and changes nothing either.
  \<open>send(msg)\<close> without \<open>to\<close> does not throw.
\<close>

lemma send_invalid_destination:
  "(map_of (connections st) to = None \<and> to \<notin> set inheritedNames \<longrightarrow>
      server_send m (Some to) st = (Some (Error ''Invalid destination for server message''), st))
   \<and> (map_of (connections st) to = None \<and> to \<in> set inheritedNames \<longrightarrow>
      server_send m (Some to) st
        = (Some (TypeError ''Cannot read property push of undefined''), st))
   \<and> fst (server_send m None st) = None"
proof -
  have "\<exists>st'. sendToEach m (map fst (connections st)) st = (None, st')"
    by (rule sendToEach_known) simp
  then show ?thesis
    by (auto simp: server_send_def sendTo_def connectionOf_def)
qed

text \<open>
  C10. The code at a destination that is not in the connection table: a server
  constructed for the expected identity \<open>phone\<close>, and \<open>send(msg, 'constructor')\<close>. The table
  does not hold \<open>constructor\<close>, but the read \<open>this._connections['constructor']\<close> finds the
  function that the table inherits, so the test for \<open>undefined\<close> does not fire and the
  call throws a \<open>TypeError\<close> from \<open>connection.outgoingBuffer.push\<close>, not the error
  \<open>Invalid destination for server message\<close>. The server is left as it was, as the claim
  says. For the destination \<open>tablet\<close>, which nothing holds, the call throws the error of
  the claim, and the broadcast does not throw.
\<close>

theorem send_to_inherited_name_throws_TypeError:
  "map_of (connections (new_server (Some ''secret'') (\<lambda>v. '''') [''phone''])) ''constructor'' = None
   \<and> server_send [(''n'', JNumber 7)] (Some ''constructor'')
         (new_server (Some ''secret'') (\<lambda>v. '''') [''phone''])
       = (Some (TypeError ''Cannot read property push of undefined''),
          new_server (Some ''secret'') (\<lambda>v. '''') [''phone''])
   \<and> server_send [(''n'', JNumber 7)] (Some ''tablet'')
         (new_server (Some ''secret'') (\<lambda>v. '''') [''phone''])
       = (Some (Error ''Invalid destination for server message''),
          new_server (Some ''secret'') (\<lambda>v. '''') [''phone''])
   \<and> fst (server_send [(''n'', JNumber 7)] None
              (new_server (Some ''secret'') (\<lambda>v. '''') [''phone''])) = None"
  by (simp add: new_server_def server_send_def sendTo_def connectionOf_def inheritedNames_def
        expectedRecord_def modify_def)










end
